theory Spec2Isabelle
  imports Complex_Main "HOL-Library.Word" "HOL-Library.Sublist"
begin

section \<open>The CIFAR benchmark of \<^verbatim>\<open>vitis/main.c\<close>\<close>

text \<open>
  The development embeds \<^verbatim>\<open>argmax\<close>, \<^verbatim>\<open>channel_mean\<close> and
  \<^verbatim>\<open>test_resnet20v2_on_cifar\<close>. Bytes are 8-bit words. The counters of type
  \<^verbatim>\<open>size_t\<close> are natural numbers: every one of them is bounded by the record count, so
  none wraps; the single wrap-around of the source, \<^verbatim>\<open>return -1\<close> from a function
  returning \<^verbatim>\<open>size_t\<close>, is written out as \<open>SIZE_MAX\<close>. A pointer
  \<^verbatim>\<open>const T *buffer\<close> is the function \<open>\<lambda>i. buffer[i]\<close>.
\<close>

type_synonym u8 = "8 word"

subsection \<open>Floating-point arithmetic\<close>

text \<open>
  The arithmetic of the C types \<^verbatim>\<open>float\<close> (\<open>'f\<close>) and \<^verbatim>\<open>double\<close> (\<open>'d\<close>) is a
  parameter of the model: the conversions and operations that the source applies, each
  at the type C's promotion rules give it. What is proved for every such record holds
  for IEEE arithmetic with its rounding; \<open>exact_fpu\<close> is arithmetic without rounding, on
  the reals (where HOL's \<open>x / 0 = 0\<close> stands for a division the hardware answers with
  an infinity or a NaN).
\<close>

record ('f, 'd) fpu =
  f_of_nat :: "nat \<Rightarrow> 'f"           \<comment> \<open>\<^verbatim>\<open>(float)n\<close> of an unsigned integer\<close>
  d_of_nat :: "nat \<Rightarrow> 'd"           \<comment> \<open>a literal such as \<^verbatim>\<open>255.0\<close>\<close>
  f_to_d :: "'f \<Rightarrow> 'd"             \<comment> \<open>promotion of a float operand\<close>
  d_to_f :: "'d \<Rightarrow> 'f"             \<comment> \<open>rounding on assignment to a float\<close>
  d_add :: "'d \<Rightarrow> 'd \<Rightarrow> 'd"
  d_sub :: "'d \<Rightarrow> 'd \<Rightarrow> 'd"
  d_div :: "'d \<Rightarrow> 'd \<Rightarrow> 'd"
  f_add :: "'f \<Rightarrow> 'f \<Rightarrow> 'f"
  f_div :: "'f \<Rightarrow> 'f \<Rightarrow> 'f"
  f_gt :: "'f \<Rightarrow> 'f \<Rightarrow> bool"

definition exact_fpu :: "(real, real) fpu" where
  "exact_fpu =
     \<lparr>f_of_nat = real, d_of_nat = real, f_to_d = (\<lambda>x. x), d_to_f = (\<lambda>x. x),
      d_add = (+), d_sub = (-), d_div = (/), f_add = (+), f_div = (/),
      f_gt = (\<lambda>a b. b < a)\<rparr>"

subsection \<open>\<^verbatim>\<open>argmax\<close>\<close>

text \<open>\<^verbatim>\<open>(size_t)-1\<close> where \<^verbatim>\<open>size_t\<close> has 64 bits (the Cortex-A53 of the ZCU104).\<close>

definition SIZE_MAX :: nat where
  "SIZE_MAX = 2 ^ 64 - 1"

text \<open>The \<^verbatim>\<open>for\<close> loop of \<^verbatim>\<open>argmax\<close>, from the state \<open>(i, max, max_i)\<close>.\<close>

function argmax_loop ::
  "('a \<Rightarrow> 'a \<Rightarrow> bool) \<Rightarrow> nat \<Rightarrow> (nat \<Rightarrow> 'a) \<Rightarrow> nat \<Rightarrow> 'a \<Rightarrow> nat \<Rightarrow> nat" where
  "argmax_loop gt sz buffer i mx mx_i =
     (if i < sz then
        (if gt (buffer i) mx then argmax_loop gt sz buffer (i + 1) (buffer i) i
         else argmax_loop gt sz buffer (i + 1) mx mx_i)
      else mx_i)"
  by pat_completeness auto
termination
  by (relation "measure (\<lambda>(gt, sz, buffer, i, mx, mx_i). sz - i)") auto

declare argmax_loop.simps [simp del]

text \<open>\<open>gt\<close> is the comparison \<^verbatim>\<open>buffer[i] > max\<close> of the element type.\<close>

definition argmax :: "('a \<Rightarrow> 'a \<Rightarrow> bool) \<Rightarrow> nat \<Rightarrow> (nat \<Rightarrow> 'a) \<Rightarrow> nat" where
  "argmax gt sz buffer =
     (if sz = 0 then SIZE_MAX else argmax_loop gt sz buffer 1 (buffer 0) 0)"

subsection \<open>\<^verbatim>\<open>channel_mean\<close>\<close>

text \<open>
  \<^verbatim>\<open>#define CHANNEL_TO_FLOAT(v) ((float)v / 255.0)\<close>: the byte is converted to a float,
  promoted, and divided by the double \<^verbatim>\<open>255.0\<close>; the value is a double.
\<close>

definition CHANNEL_TO_FLOAT :: "('f, 'd) fpu \<Rightarrow> u8 \<Rightarrow> 'd" where
  "CHANNEL_TO_FLOAT fp v = d_div fp (f_to_d fp (f_of_nat fp (unat v))) (d_of_nat fp 255)"

text \<open>\<^verbatim>\<open>sum += CHANNEL_TO_FLOAT(buffer[i])\<close>: a double addition, rounded into the float.\<close>

definition accumulate :: "('f, 'd) fpu \<Rightarrow> 'f \<Rightarrow> u8 \<Rightarrow> 'f" where
  "accumulate fp s v = d_to_f fp (d_add fp (f_to_d fp s) (CHANNEL_TO_FLOAT fp v))"

function channel_mean_loop ::
  "('f, 'd) fpu \<Rightarrow> nat \<Rightarrow> (nat \<Rightarrow> u8) \<Rightarrow> nat \<Rightarrow> 'f \<Rightarrow> 'f" where
  "channel_mean_loop fp sz buffer i s =
     (if i < sz then channel_mean_loop fp sz buffer (i + 1) (accumulate fp s (buffer i))
      else s)"
  by pat_completeness auto
termination
  by (relation "measure (\<lambda>(fp, sz, buffer, i, s). sz - i)") auto

declare channel_mean_loop.simps [simp del]

definition channel_mean :: "('f, 'd) fpu \<Rightarrow> nat \<Rightarrow> (nat \<Rightarrow> u8) \<Rightarrow> 'f" where
  "channel_mean fp sz buffer =
     f_div fp (channel_mean_loop fp sz buffer 0 (d_to_f fp (d_of_nat fp 0))) (f_of_nat fp sz)"

definition CIFAR_PIXELS_SIZE :: nat where
  "CIFAR_PIXELS_SIZE = 1024"

definition CIFAR_CLASSES_SIZE :: nat where
  "CIFAR_CLASSES_SIZE = 10"

subsection \<open>The platform\<close>

text \<open>
  \<^verbatim>\<open>tensil_error_t\<close> comes from a header outside the repository's sources. Modelled
  from its uses: \<^verbatim>\<open>TENSIL_ERROR_NONE\<close> is \<open>None\<close>; an error is
  \<^verbatim>\<open>TENSIL_FS_ERROR(res)\<close> of a file-system result, or an error that a driver or
  stopwatch call returned, identified by a code.
\<close>

datatype tensil_error = TENSIL_FS_ERROR nat | TENSIL_DRIVER_ERROR nat

type_synonym tensil_error_t = "tensil_error option"

text \<open>
  The file system, the accelerator driver and the stopwatch are collaborators whose code
  is not in the repository: each call is a function of the world \<open>'s\<close> (the card, the
  driver and model structures, the stopwatch, the clock) that returns its result and
  the world after the call. An \<^verbatim>\<open>FRESULT\<close> is a number, 0 for \<^verbatim>\<open>FR_OK\<close>.
  \<open>dram\<close> reads the bytes at \<^verbatim>\<open>CIFAR_BUFFER_BASE\<close>, by offset.
\<close>

record ('s, 'f) platform =
  f_stat :: "string \<Rightarrow> 's \<Rightarrow> nat \<times> nat \<times> 's"   \<comment> \<open>result, \<^verbatim>\<open>fno.fsize\<close>\<close>
  f_open :: "string \<Rightarrow> 's \<Rightarrow> nat \<times> 's"
  f_read :: "nat \<Rightarrow> 's \<Rightarrow> nat \<times> 's"            \<comment> \<open>bytes to read; fills the DRAM buffer\<close>
  f_close :: "'s \<Rightarrow> 's"
  dram :: "'s \<Rightarrow> nat \<Rightarrow> u8"
  tensil_driver_load_model_input_vector_scalars ::
    "nat \<Rightarrow> 'f list \<Rightarrow> 's \<Rightarrow> tensil_error_t \<times> 's"
  stopwatch_start :: "'s \<Rightarrow> tensil_error_t \<times> 's"
  tensil_driver_run :: "'s \<Rightarrow> tensil_error_t \<times> 's"
  stopwatch_stop :: "'s \<Rightarrow> 's"
  stopwatch_elapsed_seconds :: "'s \<Rightarrow> 'f"
  tensil_driver_get_model_output_scalars :: "'s \<Rightarrow> tensil_error_t \<times> (nat \<Rightarrow> 'f) \<times> 's"
  tensil_driver_print_model_output_vectors :: "'s \<Rightarrow> tensil_error_t \<times> 's"

text \<open>
  What the program does to the outside, in order: its calls of the driver and the
  stopwatch, each with its arguments and result, and its console output. \<^verbatim>\<open>printf\<close>
  and the \<^verbatim>\<open>console_*\<close> functions only write to the terminal: they are events and
  leave the world as it is.
\<close>

datatype ('f, 'd) event =
    Printf_reading string
  | Printf_testing
  | Console_clear_screen
  | Console_set_cursor_position nat nat
  | Load_input nat "'f list" tensil_error_t
  | Stopwatch_start tensil_error_t
  | Driver_run tensil_error_t
  | Stopwatch_stop
  | Stopwatch_elapsed_seconds 'f
  | Get_output tensil_error_t "'f list"
  | Printf_progress nat 'd char
  | Printf_image
  | Console_set_background_color u8 u8 u8
  | Printf_newline
  | Printf_cell
  | Console_reset_background_color
  | Printf_result
  | Print_output tensil_error_t
  | Console_set_foreground_color nat nat nat
  | Printf_classes "string option" "string option"
  | Console_reset_foreground_color
  | Printf_summary nat 'd 'd

definition cifar_classes :: "string list" where
  "cifar_classes =
     [''airplane'', ''automobile'', ''bird'', ''cat'', ''deer'',
      ''dog'', ''frog'', ''horse'', ''ship'', ''truck'']"

text \<open>
  \<^verbatim>\<open>cifar_classes[k]\<close>. The table has ten entries and the source checks no index. A
  read past its end is undefined behaviour in C: the model marks it as \<open>None\<close>, the
  \<^verbatim>\<open>%s\<close> argument C leaves undefined, in the event that prints it, and goes on. What
  the model computes after such an event says nothing of the program, whose run may
  end there; \<open>table_overrun\<close> below recognises these events.
\<close>

definition cifar_class :: "nat \<Rightarrow> string option" where
  "cifar_class k = (if k < length cifar_classes then Some (cifar_classes ! k) else None)"

definition progress :: "char list" where
  "progress = [CHR ''-'', CHR 0x5C, CHR ''|'', CHR ''/'']"

subsection \<open>\<^verbatim>\<open>test_resnet20v2_on_cifar\<close>\<close>

text \<open>
  The local variables of the function and the outside. The pointers \<^verbatim>\<open>ptr\<close>,
  \<^verbatim>\<open>red\<close>, \<^verbatim>\<open>green\<close> and \<^verbatim>\<open>blue\<close> are offsets from \<^verbatim>\<open>CIFAR_BUFFER_BASE\<close>.
  The variables declared inside the loop are written before they are read in every
  iteration, so the values they start with do not matter.
\<close>

record ('s, 'f, 'd) state =
  world :: 's
  trace :: "('f, 'd) event list"
  error :: tensil_error_t
  misclass_count :: nat
  total_seconds :: 'f
  ptr :: nat
  expected_class :: nat
  red :: nat
  green :: nat
  blue :: nat
  seconds :: 'f
  result :: "nat \<Rightarrow> 'f"
  actual_class :: nat

definition emit :: "('f, 'd) event list \<Rightarrow> ('s, 'f, 'd) state \<Rightarrow> ('s, 'f, 'd) state" where
  "emit evs st = st\<lparr>trace := trace st @ evs\<rparr>"

text \<open>
  Each block of statements of the loop body is a function on states. \<^verbatim>\<open>goto cleanup\<close>
  is the return of a state whose \<open>error\<close> is set: every caller checks it and returns in
  turn, up to the label.

  Lines 96 to 106: the record at \<^verbatim>\<open>ptr\<close> is a label byte and three channels.
\<close>

definition decode_record :: "(nat \<Rightarrow> u8) \<Rightarrow> ('s, 'f, 'd) state \<Rightarrow> ('s, 'f, 'd) state" where
  "decode_record mem st =
     (let st1 = st\<lparr>expected_class := unat (mem (ptr st)), ptr := ptr st + 1\<rparr>;
          st2 = st1\<lparr>red := ptr st1, ptr := ptr st1 + CIFAR_PIXELS_SIZE\<rparr>;
          st3 = st2\<lparr>green := ptr st2, ptr := ptr st2 + CIFAR_PIXELS_SIZE\<rparr>
      in st3\<lparr>blue := ptr st3, ptr := ptr st3 + CIFAR_PIXELS_SIZE\<rparr>)"

text \<open>
  The array \<^verbatim>\<open>pixel\<close> of lines 113 to 115: each component is a double subtraction,
  rounded into the float array.
\<close>

definition pixel ::
  "('f, 'd) fpu \<Rightarrow> (nat \<Rightarrow> u8) \<Rightarrow> (nat \<Rightarrow> u8) \<Rightarrow> (nat \<Rightarrow> u8) \<Rightarrow> 'f \<Rightarrow> 'f \<Rightarrow> 'f \<Rightarrow> nat \<Rightarrow> 'f list" where
  "pixel fp red_ch green_ch blue_ch red_mean green_mean blue_mean j =
     [d_to_f fp (d_sub fp (CHANNEL_TO_FLOAT fp (red_ch j)) (f_to_d fp red_mean)),
      d_to_f fp (d_sub fp (CHANNEL_TO_FLOAT fp (green_ch j)) (f_to_d fp green_mean)),
      d_to_f fp (d_sub fp (CHANNEL_TO_FLOAT fp (blue_ch j)) (f_to_d fp blue_mean))]"

text \<open>The loop of lines 112 to 122, from \<open>j\<close>; \<open>px j\<close> is the array \<^verbatim>\<open>pixel\<close>.\<close>

function load_pixels ::
  "('s, 'f) platform \<Rightarrow> (nat \<Rightarrow> 'f list) \<Rightarrow> nat \<Rightarrow> ('s, 'f, 'd) state \<Rightarrow> ('s, 'f, 'd) state" where
  "load_pixels pf px j st =
     (if j < CIFAR_PIXELS_SIZE then
        (case tensil_driver_load_model_input_vector_scalars pf j (px j) (world st) of
           (e, w) \<Rightarrow>
             let st' = emit [Load_input j (px j) e] (st\<lparr>world := w, error := e\<rparr>)
             in if e \<noteq> None then st' else load_pixels pf px (j + 1) st')
      else st)"
  by pat_completeness auto
termination
  by (relation "measure (\<lambda>(pf, px, j, st). CIFAR_PIXELS_SIZE - j)") auto

declare load_pixels.simps [simp del]

text \<open>Lines 108 to 122: the three channel means, then the loop over the pixels.\<close>

definition stage_input ::
  "('s, 'f) platform \<Rightarrow> ('f, 'd) fpu \<Rightarrow> (nat \<Rightarrow> u8) \<Rightarrow> ('s, 'f, 'd) state \<Rightarrow> ('s, 'f, 'd) state" where
  "stage_input pf fp mem st =
     (let red_mean = channel_mean fp CIFAR_PIXELS_SIZE (\<lambda>k. mem (red st + k));
          green_mean = channel_mean fp CIFAR_PIXELS_SIZE (\<lambda>k. mem (green st + k));
          blue_mean = channel_mean fp CIFAR_PIXELS_SIZE (\<lambda>k. mem (blue st + k))
      in load_pixels pf
           (pixel fp (\<lambda>k. mem (red st + k)) (\<lambda>k. mem (green st + k)) (\<lambda>k. mem (blue st + k))
              red_mean green_mean blue_mean) 0 st)"

text \<open>Line 125.\<close>

definition start_timer :: "('s, 'f) platform \<Rightarrow> ('s, 'f, 'd) state \<Rightarrow> ('s, 'f, 'd) state" where
  "start_timer pf st =
     (case stopwatch_start pf (world st) of
        (e, w) \<Rightarrow> emit [Stopwatch_start e] (st\<lparr>world := w, error := e\<rparr>))"

text \<open>Line 130.\<close>

definition execute :: "('s, 'f) platform \<Rightarrow> ('s, 'f, 'd) state \<Rightarrow> ('s, 'f, 'd) state" where
  "execute pf st =
     (case tensil_driver_run pf (world st) of
        (e, w) \<Rightarrow> emit [Driver_run e] (st\<lparr>world := w, error := e\<rparr>))"

text \<open>Lines 135 to 138.\<close>

definition stop_timer ::
  "('s, 'f) platform \<Rightarrow> ('f, 'd) fpu \<Rightarrow> ('s, 'f, 'd) state \<Rightarrow> ('s, 'f, 'd) state" where
  "stop_timer pf fp st =
     (let w = stopwatch_stop pf (world st);
          s = stopwatch_elapsed_seconds pf w
      in emit [Stopwatch_stop, Stopwatch_elapsed_seconds s]
           (st\<lparr>world := w, seconds := s, total_seconds := f_add fp (total_seconds st) s\<rparr>))"

text \<open>Lines 140 to 142.\<close>

definition get_output :: "('s, 'f) platform \<Rightarrow> ('s, 'f, 'd) state \<Rightarrow> ('s, 'f, 'd) state" where
  "get_output pf st =
     (case tensil_driver_get_model_output_scalars pf (world st) of
        (e, res, w) \<Rightarrow>
          emit [Get_output e (map res [0..<CIFAR_CLASSES_SIZE])]
            (st\<lparr>world := w, error := e, result := res\<rparr>))"

text \<open>Lines 147 to 150.\<close>

definition classify :: "('f, 'd) fpu \<Rightarrow> ('s, 'f, 'd) state \<Rightarrow> ('s, 'f, 'd) state" where
  "classify fp st =
     (let st1 = st\<lparr>actual_class := argmax (f_gt fp) CIFAR_CLASSES_SIZE (result st)\<rparr>
      in if actual_class st1 \<noteq> expected_class st1
         then st1\<lparr>misclass_count := misclass_count st1 + 1\<rparr>
         else st1)"

text \<open>The loop of lines 160 to 167: what it writes to the console, from \<open>j\<close>.\<close>

function print_image ::
  "(nat \<Rightarrow> u8) \<Rightarrow> (nat \<Rightarrow> u8) \<Rightarrow> (nat \<Rightarrow> u8) \<Rightarrow> nat \<Rightarrow> ('f, 'd) event list" where
  "print_image red_ch green_ch blue_ch j =
     (if j < CIFAR_PIXELS_SIZE then
        [Console_set_background_color (red_ch j) (green_ch j) (blue_ch j)]
        @ (if j mod 32 = 0 then [Printf_newline] else [])
        @ [Printf_cell]
        @ print_image red_ch green_ch blue_ch (j + 1)
      else [])"
  by pat_completeness auto
termination
  by (relation "measure (\<lambda>(red_ch, green_ch, blue_ch, j). CIFAR_PIXELS_SIZE - j)") auto

declare print_image.simps [simp del]

text \<open>Lines 153 to 190, the body of \<^verbatim>\<open>if (print_images)\<close>.\<close>

definition report ::
  "('s, 'f) platform \<Rightarrow> ('f, 'd) fpu \<Rightarrow> (nat \<Rightarrow> u8) \<Rightarrow> nat \<Rightarrow>
   ('s, 'f, 'd) state \<Rightarrow> ('s, 'f, 'd) state" where
  "report pf fp mem i st =
     (let st1 = emit [Console_set_cursor_position 1 1,
                      Printf_progress i (f_to_d fp (f_div fp (f_of_nat fp 1) (seconds st)))
                        (progress ! (i mod 4))] st
      in if i mod 100 = 0 then
           (let st2 = emit ([Printf_image]
                            @ print_image (\<lambda>k. mem (red st + k)) (\<lambda>k. mem (green st + k))
                                (\<lambda>k. mem (blue st + k)) 0
                            @ [Printf_newline, Console_reset_background_color, Printf_result])
                        st1
            in case tensil_driver_print_model_output_vectors pf (world st2) of
                 (e, w) \<Rightarrow>
                   let st3 = emit [Print_output e] (st2\<lparr>world := w, error := e\<rparr>)
                   in if e \<noteq> None then st3
                      else emit [if actual_class st = expected_class st
                                 then Console_set_foreground_color 0 255 0
                                 else Console_set_foreground_color 255 0 0,
                                 Printf_classes (cifar_class (expected_class st))
                                   (cifar_class (actual_class st)),
                                 Console_reset_foreground_color] st3)
         else st1)"

text \<open>
  One iteration of the loop over the images, lines 96 to 191. \<open>mem\<close> is the dataset
  buffer: the source reads it through the pointers and nothing but \<^verbatim>\<open>f_read\<close> writes
  it.
\<close>

definition process_image ::
  "('s, 'f) platform \<Rightarrow> ('f, 'd) fpu \<Rightarrow> (nat \<Rightarrow> u8) \<Rightarrow> bool \<Rightarrow> nat \<Rightarrow>
   ('s, 'f, 'd) state \<Rightarrow> ('s, 'f, 'd) state" where
  "process_image pf fp mem print_images i st =
     (let st1 = stage_input pf fp mem (decode_record mem st)
      in if error st1 \<noteq> None then st1
         else let st2 = start_timer pf st1
           in if error st2 \<noteq> None then st2
              else let st3 = execute pf st2
                in if error st3 \<noteq> None then st3
                   else let st4 = get_output pf (stop_timer pf fp st3)
                     in if error st4 \<noteq> None then st4
                        else let st5 = classify fp st4
                          in if print_images then report pf fp mem i st5 else st5)"

text \<open>The loop of line 95, from \<open>i\<close>; it is left at the first error.\<close>

function images_loop ::
  "('s, 'f) platform \<Rightarrow> ('f, 'd) fpu \<Rightarrow> (nat \<Rightarrow> u8) \<Rightarrow> bool \<Rightarrow> nat \<Rightarrow> nat \<Rightarrow>
   ('s, 'f, 'd) state \<Rightarrow> ('s, 'f, 'd) state" where
  "images_loop pf fp mem print_images total_count i st =
     (if i < total_count then
        (let st' = process_image pf fp mem print_images i st
         in if error st' \<noteq> None then st'
            else images_loop pf fp mem print_images total_count (i + 1) st')
      else st)"
  by pat_completeness auto
termination
  by (relation "measure (\<lambda>(pf, fp, mem, print_images, total_count, i, st). total_count - i)")
    auto

declare images_loop.simps [simp del]

text \<open>
  The variables as the function declares them: the counters at zero and no error. The
  variables of the loop body have no value yet.
\<close>

definition initial :: "('f, 'd) fpu \<Rightarrow> 's \<Rightarrow> ('s, 'f, 'd) state" where
  "initial fp w =
     \<lparr>world = w, trace = [], error = None, misclass_count = 0,
      total_seconds = f_of_nat fp 0, ptr = 0, expected_class = 0, red = 0, green = 0,
      blue = 0, seconds = f_of_nat fp 0, result = (\<lambda>k. f_of_nat fp 0), actual_class = 0\<rparr>"

text \<open>
  Lines 84 to 205: the function once the file is in the buffer. \<open>fsize\<close> is
  \<^verbatim>\<open>fno.fsize\<close> and \<open>w\<close> the world after \<^verbatim>\<open>f_close\<close>. The state returned holds the
  \<^verbatim>\<open>error\<close> that the function returns.
\<close>

definition test_on_buffer ::
  "('s, 'f) platform \<Rightarrow> ('f, 'd) fpu \<Rightarrow> bool \<Rightarrow> nat \<Rightarrow> 's \<Rightarrow> ('s, 'f, 'd) state" where
  "test_on_buffer pf fp print_images fsize w =
     (let total_count = fsize div (CIFAR_PIXELS_SIZE * 3 + 1);
          st0 = emit [Printf_testing] (initial fp w);
          st1 = (if print_images then emit [Console_clear_screen] st0 else st0);
          st2 = images_loop pf fp (dram pf w) print_images total_count 0 st1;
          st3 = (if print_images
                 then emit [Console_clear_screen, Console_set_cursor_position 1 1] st2
                 else st2)
      in if error st3 = None
         then emit [Printf_summary total_count
                      (d_sub fp (d_of_nat fp 1)
                         (f_to_d fp (f_div fp (f_of_nat fp (misclass_count st3))
                                              (f_of_nat fp total_count))))
                      (f_to_d fp (f_div fp (f_of_nat fp total_count) (total_seconds st3)))] st3
         else st3)"

text \<open>
  The whole function. A file-system error returns before anything is counted. The
  line \<^verbatim>\<open>Reading CIFAR test images\<close> is written before the file is read, so it is the
  first event of every trace that has one.
\<close>

definition fs_failure ::
  "('f, 'd) fpu \<Rightarrow> nat \<Rightarrow> ('f, 'd) event list \<Rightarrow> 's \<Rightarrow> ('s, 'f, 'd) state" where
  "fs_failure fp res tr w = (initial fp w)\<lparr>trace := tr, error := Some (TENSIL_FS_ERROR res)\<rparr>"

definition test_resnet20v2_on_cifar ::
  "('s, 'f) platform \<Rightarrow> ('f, 'd) fpu \<Rightarrow> string \<Rightarrow> bool \<Rightarrow> 's \<Rightarrow> ('s, 'f, 'd) state" where
  "test_resnet20v2_on_cifar pf fp file_name print_images w =
     (case f_stat pf file_name w of
        (res, fsize, w1) \<Rightarrow>
          if res \<noteq> 0 then fs_failure fp res [] w1
          else case f_open pf file_name w1 of
            (res2, w2) \<Rightarrow>
              if res2 \<noteq> 0 then fs_failure fp res2 [] w2
              else case f_read pf fsize w2 of
                (res3, w3) \<Rightarrow>
                  let w4 = f_close pf w3
                  in if res3 \<noteq> 0 then fs_failure fp res3 [Printf_reading file_name] w4
                     else let r = test_on_buffer pf fp print_images fsize w4
                       in r\<lparr>trace := Printf_reading file_name # trace r\<rparr>)"

subsection \<open>Observations on a trace\<close>

text \<open>The error that a call of the driver or the stopwatch returned.\<close>

definition failure :: "('f, 'd) event \<Rightarrow> tensil_error_t" where
  "failure ev =
     (case ev of
        Load_input j px e \<Rightarrow> e
      | Stopwatch_start e \<Rightarrow> e
      | Driver_run e \<Rightarrow> e
      | Get_output e out \<Rightarrow> e
      | Print_output e \<Rightarrow> e
      | _ \<Rightarrow> None)"

definition is_summary :: "('f, 'd) event \<Rightarrow> bool" where
  "is_summary ev = (case ev of Printf_summary n a t \<Rightarrow> True | _ \<Rightarrow> False)"

text \<open>The input vectors handed to the driver, each with its offset.\<close>

definition staged_inputs :: "('f, 'd) event list \<Rightarrow> (nat \<times> 'f list) list" where
  "staged_inputs tr =
     concat (map (\<lambda>ev. case ev of Load_input j px e \<Rightarrow> [(j, px)] | _ \<Rightarrow> []) tr)"

text \<open>The score vectors that the driver returned without error, one per classified image.\<close>

definition outputs :: "('f, 'd) event list \<Rightarrow> 'f list list" where
  "outputs tr =
     concat (map (\<lambda>ev. case ev of Get_output e out \<Rightarrow> (if e = None then [out] else [])
                          | _ \<Rightarrow> []) tr)"

text \<open>The values read from the stopwatch.\<close>

definition elapsed_times :: "('f, 'd) event list \<Rightarrow> 'f list" where
  "elapsed_times tr =
     concat (map (\<lambda>ev. case ev of Stopwatch_elapsed_seconds s \<Rightarrow> [s] | _ \<Rightarrow> []) tr)"

text \<open>
  The events of the live reporter: the console calls, the output of lines 152 to 191 and
  the diagnostic print of the output vectors.
\<close>

definition reporting :: "('f, 'd) event \<Rightarrow> bool" where
  "reporting ev =
     (case ev of
        Printf_reading f \<Rightarrow> False
      | Printf_testing \<Rightarrow> False
      | Load_input j px e \<Rightarrow> False
      | Stopwatch_start e \<Rightarrow> False
      | Driver_run e \<Rightarrow> False
      | Stopwatch_stop \<Rightarrow> False
      | Stopwatch_elapsed_seconds s \<Rightarrow> False
      | Get_output e out \<Rightarrow> False
      | Printf_summary n a t \<Rightarrow> False
      | _ \<Rightarrow> True)"

text \<open>
  The events in which the reporter reads \<^verbatim>\<open>cifar_classes\<close> past its end (line 187): where
  a trace has one, the C program has undefined behaviour at that point.
\<close>

definition table_overrun :: "('f, 'd) event \<Rightarrow> bool" where
  "table_overrun ev = (case ev of Printf_classes x y \<Rightarrow> x = None \<or> y = None | _ \<Rightarrow> False)"

text \<open>
  The calls to \<^verbatim>\<open>tensil_driver_run\<close> of a trace, with their results, in order.
\<close>

definition executions :: "('f, 'd) event list \<Rightarrow> tensil_error_t list" where
  "executions tr = concat (map (\<lambda>ev. case ev of Driver_run e \<Rightarrow> [e] | _ \<Rightarrow> []) tr)"

text \<open>
  The discipline of the stopwatch, as an automaton that reads the trace.
  \<open>Spent\<close>: no image has begun since the last interval, none may be opened.
  \<open>Ready\<close>: the staging of an image has begun (at offset 0) and no interval was opened
  for it. \<open>Opened\<close>: the stopwatch runs and nothing has happened since its start.
  \<open>Executed\<close>: the stopwatch runs and the execution call has returned without error.
  \<open>Stopped\<close>: the stopwatch is stopped and its interval not read yet.
  \<open>Measured\<close>: the interval was read; the output of this execution is due next.
  \<open>Abandoned\<close>: the start or the execution failed; no driver or stopwatch call may
  follow. \<open>Violated\<close>: anything else happened, such as a second start, an execution
  outside an interval or a second one inside it, a stop that does not follow the
  execution at once, an interval read twice or not read, output retrieved without a
  measured execution before it, or input staging or console output between the start
  of the stopwatch and the retrieval of the output.
\<close>

datatype timer = Spent | Ready | Opened | Executed | Stopped | Measured | Abandoned | Violated

definition timer_step :: "timer \<Rightarrow> ('f, 'd) event \<Rightarrow> timer" where
  "timer_step p ev =
     (case ev of
        Load_input j px e \<Rightarrow>
          (if p = Spent \<and> j = 0 then Ready else if p = Ready then Ready else Violated)
      | Stopwatch_start e \<Rightarrow>
          (if p = Ready then (if e = None then Opened else Abandoned) else Violated)
      | Driver_run e \<Rightarrow>
          (if p = Opened then (if e = None then Executed else Abandoned) else Violated)
      | Stopwatch_stop \<Rightarrow> (if p = Executed then Stopped else Violated)
      | Stopwatch_elapsed_seconds s \<Rightarrow> (if p = Stopped then Measured else Violated)
      | Get_output e out \<Rightarrow> (if p = Measured then Spent else Violated)
      | Print_output e \<Rightarrow> (if p = Spent \<or> p = Ready then p else Violated)
      | _ \<Rightarrow> (if p = Spent \<or> p = Ready \<or> p = Abandoned then p else Violated))"

definition timer_after :: "('f, 'd) event list \<Rightarrow> timer" where
  "timer_after tr = foldl timer_step Spent tr"

section \<open>Definitions for the statements and the proofs\<close>

text \<open>An event of the console: it belongs to no call of the driver or the stopwatch.\<close>

definition console :: "('f, 'd) event \<Rightarrow> bool" where
  "console ev \<longleftrightarrow> reporting ev \<and> (\<forall>e. ev \<noteq> Print_output e)"

text \<open>
  The stopwatch between two images: no interval is open and none may be opened; after
  an error, the staging of an image may have begun or an interval may be abandoned.
\<close>

definition timed :: "('s, 'f, 'd) state \<Rightarrow> bool" where
  "timed st \<longleftrightarrow>
     timer_after (trace st) = Spent
     \<or> error st \<noteq> None \<and> (timer_after (trace st) = Ready \<or> timer_after (trace st) = Abandoned)"

text \<open>The cumulative time is the sum of the intervals read so far, in order.\<close>

definition accumulated :: "('f, 'd) fpu \<Rightarrow> ('s, 'f, 'd) state \<Rightarrow> bool" where
  "accumulated fp st \<longleftrightarrow>
     total_seconds st = foldl (f_add fp) (f_of_nat fp 0) (elapsed_times (trace st))"

text \<open>
  The error variable and the trace agree: without an error no call in the trace has
  failed; with an error the failed call is the last event and the only failed one.
\<close>

definition sound :: "('s, 'f, 'd) state \<Rightarrow> bool" where
  "sound st =
     (case error st of
        None \<Rightarrow> (\<forall>ev\<in>set (trace st). failure ev = None)
      | Some e \<Rightarrow> (\<exists>tr ev. trace st = tr @ [ev] \<and> failure ev = Some e
                     \<and> (\<forall>ev'\<in>set tr. failure ev' = None)))"

text \<open>
  Component \<open>c\<close> (0 red, 1 green, 2 blue) at position \<open>j\<close> of image \<open>i\<close>, as the
  specification words it: the byte of the channel over 255, minus the mean of that
  channel of that image.
\<close>

definition normalized :: "('f, 'd) fpu \<Rightarrow> (nat \<Rightarrow> u8) \<Rightarrow> nat \<Rightarrow> nat \<Rightarrow> nat \<Rightarrow> 'f" where
  "normalized fp mem i c j =
     d_to_f fp (d_sub fp (CHANNEL_TO_FLOAT fp (mem (3073 * i + 1 + 1024 * c + j)))
       (f_to_d fp (channel_mean fp 1024 (\<lambda>k. mem (3073 * i + 1 + 1024 * c + k)))))"

definition image_inputs :: "('f, 'd) fpu \<Rightarrow> (nat \<Rightarrow> u8) \<Rightarrow> nat \<Rightarrow> (nat \<times> 'f list) list" where
  "image_inputs fp mem i =
     map (\<lambda>j. (j, [normalized fp mem i 0 j, normalized fp mem i 1 j, normalized fp mem i 2 j]))
       [0..<1024]"

definition expected_inputs :: "('f, 'd) fpu \<Rightarrow> (nat \<Rightarrow> u8) \<Rightarrow> nat \<Rightarrow> (nat \<times> 'f list) list" where
  "expected_inputs fp mem n = concat (map (image_inputs fp mem) [0..<n])"

text \<open>
  The number of score vectors whose first maximum is not at the label of their record,
  the \<open>k\<close>-th vector belonging to the record at offset \<open>3073 * k\<close>.
\<close>

definition misclassified :: "('f, 'd) fpu \<Rightarrow> (nat \<Rightarrow> u8) \<Rightarrow> 'f list list \<Rightarrow> nat" where
  "misclassified fp mem outs =
     length (filter (\<lambda>(k, out). argmax (f_gt fp) CIFAR_CLASSES_SIZE ((!) out) \<noteq> unat (mem (3073 * k)))
               (zip [0..<length outs] outs))"

text \<open>
  The state before image \<open>i\<close>: the pointer is at record \<open>i\<close>, the inputs staged are
  those expected of the images before \<open>i\<close> (a prefix of them after an error), and the
  misclassification count is that of the score vectors retrieved.
\<close>

definition decoded :: "('f, 'd) fpu \<Rightarrow> (nat \<Rightarrow> u8) \<Rightarrow> nat \<Rightarrow> ('s, 'f, 'd) state \<Rightarrow> bool" where
  "decoded fp mem i st \<longleftrightarrow>
     ptr st = 3073 * i
     \<and> misclass_count st = misclassified fp mem (outputs (trace st))
     \<and> length (outputs (trace st)) \<le> i
     \<and> prefix (staged_inputs (trace st)) (expected_inputs fp mem i)
     \<and> (error st = None \<longrightarrow>
          length (outputs (trace st)) = i \<and> length (elapsed_times (trace st)) = i
          \<and> staged_inputs (trace st) = expected_inputs fp mem i)"

text \<open>The state at the label \<^verbatim>\<open>cleanup\<close> and what the function does from there.\<close>

definition at_cleanup ::
  "('s, 'f) platform \<Rightarrow> ('f, 'd) fpu \<Rightarrow> bool \<Rightarrow> nat \<Rightarrow> 's \<Rightarrow> ('s, 'f, 'd) state" where
  "at_cleanup pf fp print_images fsize w =
     images_loop pf fp (dram pf w) print_images (fsize div 3073) 0
       (if print_images then emit [Console_clear_screen] (emit [Printf_testing] (initial fp w))
        else emit [Printf_testing] (initial fp w))"

definition cleanup :: "bool \<Rightarrow> ('f, 'd) event list" where
  "cleanup print_images =
     (if print_images then [Console_clear_screen, Console_set_cursor_position 1 1] else [])"


text \<open>
  No call that the loop makes fails; the diagnostic print is among them when live
  reporting is on.
\<close>

definition reliable :: "bool \<Rightarrow> ('s, 'f) platform \<Rightarrow> bool" where
  "reliable print_images pf \<longleftrightarrow>
     (\<forall>j px s. fst (tensil_driver_load_model_input_vector_scalars pf j px s) = None)
     \<and> (\<forall>s. fst (stopwatch_start pf s) = None)
     \<and> (\<forall>s. fst (tensil_driver_run pf s) = None)
     \<and> (\<forall>s. fst (tensil_driver_get_model_output_scalars pf s) = None)
     \<and> (print_images \<longrightarrow> (\<forall>s. fst (tensil_driver_print_model_output_vectors pf s) = None))"

text \<open>
  A platform for the witnesses. Its world is the number of execution calls made so
  far. Staging, the stopwatch start and the output retrieval succeed; the execution of
  image \<open>i\<close> returns \<open>run_error i\<close>, takes \<open>elapsed i\<close> seconds and produces the scores
  \<open>scores i\<close>; the diagnostic print returns \<open>print_error\<close>. The file has \<open>fsize\<close> bytes, and
  the buffer holds \<open>mem\<close>.
\<close>

definition stub ::
  "nat \<Rightarrow> (nat \<Rightarrow> u8) \<Rightarrow> (nat \<Rightarrow> tensil_error_t) \<Rightarrow> tensil_error_t \<Rightarrow> (nat \<Rightarrow> 'f) \<Rightarrow>
   (nat \<Rightarrow> nat \<Rightarrow> 'f) \<Rightarrow> (nat, 'f) platform" where
  "stub fsize mem run_error print_error elapsed scores =
     \<lparr>f_stat = (\<lambda>name w. (0, fsize, w)),
      f_open = (\<lambda>name w. (0, w)),
      f_read = (\<lambda>n w. (0, w)),
      f_close = (\<lambda>w. w),
      dram = (\<lambda>w. mem),
      tensil_driver_load_model_input_vector_scalars = (\<lambda>j px w. (None, w)),
      stopwatch_start = (\<lambda>w. (None, w)),
      tensil_driver_run = (\<lambda>w. (run_error w, Suc w)),
      stopwatch_stop = (\<lambda>w. w),
      stopwatch_elapsed_seconds = (\<lambda>w. elapsed (w - 1)),
      tensil_driver_get_model_output_scalars = (\<lambda>w. (None, scores (w - 1), w)),
      tensil_driver_print_model_output_vectors = (\<lambda>w. (print_error, w))\<rparr>"

text \<open>No execution fails; the execution of the second image fails.\<close>

definition no_error :: "nat \<Rightarrow> tensil_error_t" where
  "no_error i = None"

definition second_fails :: "nat \<Rightarrow> tensil_error_t" where
  "second_fails i = (if i = 1 then Some (TENSIL_DRIVER_ERROR 1) else None)"

text \<open>
  The scenario of the specification: two records, the first with label 3 and every
  channel byte 0, the second with label 7 and every channel byte 255; the scores of the
  first image have their maximum at 3, those of the second at 7; the executions take
  0.1 and 0.2 seconds.
\<close>

definition scenario_mem :: "nat \<Rightarrow> u8" where
  "scenario_mem a = (if a = 0 then 3 else if a < 3073 then 0 else if a = 3073 then 7 else 255)"

definition scenario_elapsed :: "nat \<Rightarrow> real" where
  "scenario_elapsed i = (if i = 0 then 1 / 10 else 2 / 10)"

definition scenario_scores :: "nat \<Rightarrow> nat \<Rightarrow> real" where
  "scenario_scores i k = (if i = 0 then (if k = 3 then 1 else 0) else (if k = 7 then 9 else 0))"

text \<open>A state without the events of the reporter in its trace.\<close>

definition unreported :: "('s, 'f, 'd) state \<Rightarrow> ('s, 'f, 'd) state" where
  "unreported st = st\<lparr>trace := filter (\<lambda>ev. \<not> reporting ev) (trace st)\<rparr>"

text \<open>
  The labels of the records on which the reporter prints the class names (line 187):
  those whose index is a multiple of 100, among the first \<open>n\<close> records of the buffer.
\<close>

definition reported_labels :: "(nat \<Rightarrow> u8) \<Rightarrow> nat \<Rightarrow> nat list" where
  "reported_labels mem n = map (\<lambda>k. unat (mem (3073 * k))) (filter (\<lambda>k. k mod 100 = 0) [0..<n])"

text \<open>A buffer whose every byte is 200: the label of its first record is 200.\<close>

definition unlabelled_mem :: "nat \<Rightarrow> u8" where
  "unlabelled_mem a = 200"

section \<open>Properties\<close>

subsection \<open>The channel mean\<close>

lemma channel_mean_loop_foldl:
  "channel_mean_loop fp sz buffer i s = foldl (accumulate fp) s (map buffer [i..<sz])"
proof (induction fp sz buffer i s rule: channel_mean_loop.induct)
  case (1 fp sz buffer i s)
  show ?case
  proof (cases "i < sz")
    case True
    then show ?thesis
      using "1.IH" by (subst channel_mean_loop.simps) (simp add: upt_conv_Cons)
  next
    case False
    then show ?thesis by (subst channel_mean_loop.simps) simp
  qed
qed

lemma foldl_accumulate_exact:
  "foldl (accumulate exact_fpu) s (map buffer ks)
     = s + (\<Sum>k\<leftarrow>ks. real (unat (buffer k)) / 255)"
  by (induction ks arbitrary: s)
    (simp_all add: accumulate_def CHANNEL_TO_FLOAT_def exact_fpu_def)

text \<open>
  Claim C2. For a channel of 1024 bytes, \<open>channel_mean\<close> is one pass over the buffer in
  array order, from 0, that adds \<^verbatim>\<open>byte / 255.0\<close> to the float accumulator, followed
  by the division by the count 1024: this for every floating-point arithmetic. In
  arithmetic without rounding the value is the arithmetic mean of the 1024 values
  \<^verbatim>\<open>byte / 255\<close>.
\<close>

theorem channel_mean_arithmetic_mean:
  "channel_mean fp CIFAR_PIXELS_SIZE buffer
     = f_div fp (foldl (accumulate fp) (d_to_f fp (d_of_nat fp 0)) (map buffer [0..<1024]))
         (f_of_nat fp 1024)
   \<and> channel_mean exact_fpu CIFAR_PIXELS_SIZE buffer
     = (\<Sum>i<1024. real (unat (buffer i)) / 255) / 1024"
proof
  show "channel_mean fp CIFAR_PIXELS_SIZE buffer
     = f_div fp (foldl (accumulate fp) (d_to_f fp (d_of_nat fp 0)) (map buffer [0..<1024]))
         (f_of_nat fp 1024)"
    unfolding channel_mean_def channel_mean_loop_foldl CIFAR_PIXELS_SIZE_def ..
  have "(\<Sum>k\<leftarrow>[0..<1024]. real (unat (buffer k)) / 255) = (\<Sum>i<1024. real (unat (buffer i)) / 255)"
    by (simp only: interv_sum_list_conv_sum_set_nat atLeast_upt [symmetric] lessThan_atLeast0)
  then show "channel_mean exact_fpu CIFAR_PIXELS_SIZE buffer
     = (\<Sum>i<1024. real (unat (buffer i)) / 255) / 1024"
    unfolding channel_mean_def channel_mean_loop_foldl CIFAR_PIXELS_SIZE_def foldl_accumulate_exact
    by (simp add: exact_fpu_def)
qed

subsection \<open>The predicted class\<close>

lemma argmax_loop_inv:
  fixes buffer :: "nat \<Rightarrow> 'a::linorder"
  assumes "gt = (\<lambda>a b. b < a)" "mx = buffer mx_i" "mx_i < i" "i \<le> sz"
    "\<forall>k<i. buffer k \<le> mx" "\<forall>k<mx_i. buffer k < mx"
  shows "argmax_loop gt sz buffer i mx mx_i < sz
    \<and> (\<forall>k. k < sz \<longrightarrow> buffer k \<le> buffer (argmax_loop gt sz buffer i mx mx_i))
    \<and> (\<forall>k. k < argmax_loop gt sz buffer i mx mx_i \<longrightarrow> buffer k < buffer (argmax_loop gt sz buffer i mx mx_i))"
  using assms
proof (induction gt sz buffer i mx mx_i rule: argmax_loop.induct)
  case (1 gt sz buffer i mx mx_i)
  show ?case
  proof (cases "i < sz")
    case False
    with "1.prems" show ?thesis
      by (subst (1 2 3 4) argmax_loop.simps) auto
  next
    case True
    show ?thesis
    proof (cases "gt (buffer i) mx")
      case gt: True
      have le: "\<forall>k<i + 1. buffer k \<le> buffer i"
        using "1.prems" gt by (auto simp: less_Suc_eq dest: order.strict_implies_order)
      have lt: "\<forall>k<i. buffer k < buffer i"
        using "1.prems" gt by (auto simp: less_Suc_eq)
      have "argmax_loop gt sz buffer i mx mx_i = argmax_loop gt sz buffer (i + 1) (buffer i) i"
        using True gt by (subst argmax_loop.simps) simp
      moreover note "1.IH"(1) [OF True gt "1.prems"(1) refl _ _ le lt]
      ultimately show ?thesis using True by simp
    next
      case ngt: False
      have le: "\<forall>k<i + 1. buffer k \<le> mx"
        using "1.prems" ngt by (auto simp: less_Suc_eq)
      have "argmax_loop gt sz buffer i mx mx_i = argmax_loop gt sz buffer (i + 1) mx mx_i"
        using True ngt by (subst argmax_loop.simps) simp
      moreover note "1.IH"(2) [OF True ngt "1.prems"(1) "1.prems"(2) _ _ le "1.prems"(6)]
      ultimately show ?thesis using True "1.prems"(3) by simp
    qed
  qed
qed

text \<open>
  Claim C4. On a non-empty vector of scores of a totally ordered type, compared by
  \<open>>\<close>, \<open>argmax\<close> returns an index of the vector whose score is the maximum, and every
  score before that index is strictly smaller: it is the first index of the maximum.
  The witness is the vector \<open>[0.5, 0.9, 0.9, 0.1]\<close>, with result 1 and not 2.
\<close>

theorem argmax_first_maximum:
  fixes buffer :: "nat \<Rightarrow> 'a::linorder"
  assumes "0 < sz"
  shows "argmax (>) sz buffer < sz
    \<and> (\<forall>k. k < sz \<longrightarrow> buffer k \<le> buffer (argmax (>) sz buffer))
    \<and> (\<forall>k. k < argmax (>) sz buffer \<longrightarrow> buffer k < buffer (argmax (>) sz buffer))"
  using assms argmax_loop_inv [of "(>)" "buffer 0" buffer 0 1 sz]
  by (simp add: argmax_def)

text \<open>The witness of C4: the first of the two maxima 0.9 is at index 1.\<close>

theorem argmax_first_maximum_witness:
  "(0::nat) < 4 \<and> argmax (>) 4 ((!) [0.5, 0.9, 0.9, 0.1 :: real]) = 1
   \<and> argmax (>) 4 ((!) [0.5, 0.9, 0.9, 0.1 :: real]) \<noteq> 2"
  using argmax_first_maximum [of 4 "(!) [0.5, 0.9, 0.9, 0.1 :: real]"]
  by (simp add: argmax_def argmax_loop.simps)

lemma argmax_loop_bound:
  "mx_i < sz \<Longrightarrow> argmax_loop gt sz buffer i mx mx_i < sz"
proof (induction gt sz buffer i mx mx_i rule: argmax_loop.induct)
  case (1 gt sz buffer i mx mx_i)
  then show ?case by (subst argmax_loop.simps) simp
qed

text \<open>
  Claim C5, as stated, fails: on a vector of length 0 \<open>argmax\<close> reports no error, it
  returns \<^verbatim>\<open>(size_t)-1\<close>, an index outside every vector.
\<close>

theorem argmax_empty_counterexample:
  "argmax (f_gt exact_fpu) 0 (scenario_scores 0) = 18446744073709551615"
  by (simp add: argmax_def SIZE_MAX_def)

text \<open>
  Claim C5, amended. On a vector of length 0 \<open>argmax\<close> returns the sentinel
  \<open>SIZE_MAX\<close> and no error; on every non-empty vector the index it returns is in
  range, whatever the comparison. The benchmark calls it with the size 10.
\<close>

theorem argmax_sentinel:
  "argmax gt 0 buffer = SIZE_MAX \<and> (0 < sz \<longrightarrow> argmax gt sz buffer < sz)"
  by (simp add: argmax_def argmax_loop_bound)

text \<open>The witness of C5 amended: no scores, and the ten scores of the scenario.\<close>

theorem argmax_sentinel_witness:
  "argmax (f_gt exact_fpu) 0 (scenario_scores 0) = SIZE_MAX
   \<and> 0 < CIFAR_CLASSES_SIZE
   \<and> argmax (f_gt exact_fpu) CIFAR_CLASSES_SIZE (scenario_scores 0) < CIFAR_CLASSES_SIZE"
  using argmax_sentinel [of "f_gt exact_fpu" "scenario_scores 0" CIFAR_CLASSES_SIZE]
  by (simp add: CIFAR_CLASSES_SIZE_def)

subsection \<open>States and traces\<close>

lemma emit_simps [simp]:
  "world (emit evs st) = world st"
  "error (emit evs st) = error st"
  "misclass_count (emit evs st) = misclass_count st"
  "total_seconds (emit evs st) = total_seconds st"
  "ptr (emit evs st) = ptr st"
  "expected_class (emit evs st) = expected_class st"
  "red (emit evs st) = red st"
  "green (emit evs st) = green st"
  "blue (emit evs st) = blue st"
  "seconds (emit evs st) = seconds st"
  "result (emit evs st) = result st"
  "actual_class (emit evs st) = actual_class st"
  "trace (emit evs st) = trace st @ evs"
  by (simp_all add: emit_def)

lemma staged_inputs_simps [simp]:
  "staged_inputs [] = []"
  "staged_inputs (ev # tr) =
     (case ev of Load_input j px e \<Rightarrow> [(j, px)] | _ \<Rightarrow> []) @ staged_inputs tr"
  "staged_inputs (tr @ tr') = staged_inputs tr @ staged_inputs tr'"
  by (simp_all add: staged_inputs_def)

lemma outputs_simps [simp]:
  "outputs [] = []"
  "outputs (ev # tr) =
     (case ev of Get_output e out \<Rightarrow> (if e = None then [out] else []) | _ \<Rightarrow> []) @ outputs tr"
  "outputs (tr @ tr') = outputs tr @ outputs tr'"
  by (simp_all add: outputs_def)

lemma elapsed_times_simps [simp]:
  "elapsed_times [] = []"
  "elapsed_times (ev # tr) =
     (case ev of Stopwatch_elapsed_seconds s \<Rightarrow> [s] | _ \<Rightarrow> []) @ elapsed_times tr"
  "elapsed_times (tr @ tr') = elapsed_times tr @ elapsed_times tr'"
  by (simp_all add: elapsed_times_def)

lemma executions_simps [simp]:
  "executions [] = []"
  "executions (ev # tr) = (case ev of Driver_run e \<Rightarrow> [e] | _ \<Rightarrow> []) @ executions tr"
  "executions (tr @ tr') = executions tr @ executions tr'"
  by (simp_all add: executions_def)

lemma timer_after_simps [simp]:
  "timer_after [] = Spent"
  "timer_after (tr @ evs) = foldl timer_step (timer_after tr) evs"
  by (simp_all add: timer_after_def)

lemma console_events [simp]:
  "console (Console_set_cursor_position a b)"
  "console (Printf_progress i d c)"
  "console Printf_image"
  "console Printf_newline"
  "console Printf_cell"
  "console (Console_set_background_color r g bl)"
  "console Console_reset_background_color"
  "console Printf_result"
  "console (Console_set_foreground_color a b c')"
  "console (Printf_classes x y)"
  "console Console_reset_foreground_color"
  "console Console_clear_screen"
  by (simp_all add: console_def reporting_def)

lemma console_event:
  assumes "console ev"
  shows "failure ev = None" "\<not> is_summary ev" "reporting ev"
    "staged_inputs (ev # tr) = staged_inputs tr"
    "outputs (ev # tr) = outputs tr"
    "elapsed_times (ev # tr) = elapsed_times tr"
    "timer_step p ev = (if p = Spent \<or> p = Ready \<or> p = Abandoned then p else Violated)"
    "executions (ev # tr) = executions tr"
  using assms
  by (cases ev; simp add: console_def reporting_def failure_def is_summary_def timer_step_def)+

lemma console_print_image: "\<forall>ev\<in>set (print_image r g b j). console ev"
proof (induction r g b j rule: print_image.induct)
  case (1 r g b j)
  then show ?case by (subst print_image.simps) auto
qed

lemma console_observations:
  assumes "\<forall>ev\<in>set evs. console ev"
  shows "staged_inputs evs = []" "outputs evs = []" "elapsed_times evs = []"
    "\<forall>ev\<in>set evs. failure ev = None" "\<forall>ev\<in>set evs. \<not> is_summary ev"
    "filter (\<lambda>ev. \<not> reporting ev) evs = []" "executions evs = []"
  using assms
  by (induction evs)
    (simp_all add: console_event
      del: staged_inputs_simps(2) outputs_simps(2) elapsed_times_simps(2) executions_simps(2))

lemma console_timer:
  assumes "\<forall>ev\<in>set evs. console ev" "p = Spent \<or> p = Ready \<or> p = Abandoned"
  shows "foldl timer_step p evs = p"
  using assms by (induction evs) (auto simp: console_event)

subsection \<open>The loops\<close>

lemma load_pixels_rule:
  assumes "P j st" "error st = None"
    and "\<And>k s e w. P k s \<Longrightarrow> error s = None \<Longrightarrow> k < CIFAR_PIXELS_SIZE \<Longrightarrow>
           tensil_driver_load_model_input_vector_scalars pf k (px k) (world s) = (e, w) \<Longrightarrow>
           P (Suc k) (emit [Load_input k (px k) e] (s\<lparr>world := w, error := e\<rparr>))"
  shows "\<exists>k. P k (load_pixels pf px j st) \<and> j \<le> k \<and> (k \<le> CIFAR_PIXELS_SIZE \<or> k = j)
           \<and> (k < CIFAR_PIXELS_SIZE \<longrightarrow> error (load_pixels pf px j st) \<noteq> None)
           \<and> (error (load_pixels pf px j st) \<noteq> None \<longrightarrow> j < k)"
  using assms
proof (induction pf px j st rule: load_pixels.induct)
  case (1 pf px j st)
  show ?case
  proof (cases "j < CIFAR_PIXELS_SIZE")
    case False
    then have "load_pixels pf px j st = st"
      by (subst load_pixels.simps) simp
    then show ?thesis
      using "1.prems"(1,2) False by (intro exI [of _ j]) simp
  next
    case True
    obtain e w where call:
      "tensil_driver_load_model_input_vector_scalars pf j (px j) (world st) = (e, w)"
      by (cases "tensil_driver_load_model_input_vector_scalars pf j (px j) (world st)")
    let ?st' = "emit [Load_input j (px j) e] (st\<lparr>world := w, error := e\<rparr>)"
    have P': "P (Suc j) ?st'"
      using "1.prems"(3) [OF "1.prems"(1,2) True call] .
    show ?thesis
    proof (cases e)
      case None
      have eq: "load_pixels pf px j st = load_pixels pf px (j + 1) ?st'"
        using True call None by (subst load_pixels.simps) simp
      have "\<exists>k. P k (load_pixels pf px (j + 1) ?st') \<and> j + 1 \<le> k
              \<and> (k \<le> CIFAR_PIXELS_SIZE \<or> k = j + 1)
              \<and> (k < CIFAR_PIXELS_SIZE \<longrightarrow> error (load_pixels pf px (j + 1) ?st') \<noteq> None)
              \<and> (error (load_pixels pf px (j + 1) ?st') \<noteq> None \<longrightarrow> j + 1 < k)"
        using None P' "1.prems"(3)
        by (intro "1.IH" [OF True call [symmetric] refl]) simp_all
      then obtain k where "P k (load_pixels pf px (j + 1) ?st')" "j + 1 \<le> k"
        "k \<le> CIFAR_PIXELS_SIZE \<or> k = j + 1"
        "k < CIFAR_PIXELS_SIZE \<longrightarrow> error (load_pixels pf px (j + 1) ?st') \<noteq> None"
        by blast
      then show ?thesis
        unfolding eq using True by (intro exI [of _ k]) auto
    next
      case (Some a)
      have "load_pixels pf px j st = ?st'"
        using True call Some by (subst load_pixels.simps) simp
      then show ?thesis
        using P' True Some by (intro exI [of _ "Suc j"]) simp
    qed
  qed
qed

lemma images_loop_rule:
  assumes "P i st" "error st = None"
    and "\<And>k s. P k s \<Longrightarrow> error s = None \<Longrightarrow> k < n \<Longrightarrow>
           P (Suc k) (process_image pf fp mem print_images k s)"
  shows "\<exists>k. P k (images_loop pf fp mem print_images n i st) \<and> i \<le> k \<and> (k \<le> n \<or> k = i)
           \<and> (k < n \<longrightarrow> error (images_loop pf fp mem print_images n i st) \<noteq> None)
           \<and> (error (images_loop pf fp mem print_images n i st) \<noteq> None \<longrightarrow> i < k)"
  using assms
proof (induction pf fp mem print_images n i st rule: images_loop.induct)
  case (1 pf fp mem print_images n i st)
  let ?st' = "process_image pf fp mem print_images i st"
  show ?case
  proof (cases "i < n")
    case False
    then have "images_loop pf fp mem print_images n i st = st"
      by (subst images_loop.simps) simp
    then show ?thesis
      using "1.prems"(1,2) False by (intro exI [of _ i]) simp
  next
    case True
    have P': "P (Suc i) ?st'"
      using "1.prems"(3) [OF "1.prems"(1,2) True] .
    show ?thesis
    proof (cases "error ?st'")
      case None
      have eq: "images_loop pf fp mem print_images n i st
                  = images_loop pf fp mem print_images n (i + 1) ?st'"
        using True None by (subst images_loop.simps) (simp add: Let_def)
      have "\<exists>k. P k (images_loop pf fp mem print_images n (i + 1) ?st') \<and> i + 1 \<le> k
              \<and> (k \<le> n \<or> k = i + 1)
              \<and> (k < n \<longrightarrow> error (images_loop pf fp mem print_images n (i + 1) ?st') \<noteq> None)
              \<and> (error (images_loop pf fp mem print_images n (i + 1) ?st') \<noteq> None \<longrightarrow> i + 1 < k)"
        using None P' "1.prems"(3)
        by (intro "1.IH" [OF True refl]) simp_all
      then obtain k where "P k (images_loop pf fp mem print_images n (i + 1) ?st')" "i + 1 \<le> k"
        "k \<le> n \<or> k = i + 1"
        "k < n \<longrightarrow> error (images_loop pf fp mem print_images n (i + 1) ?st') \<noteq> None"
        by blast
      then show ?thesis
        unfolding eq using True by (intro exI [of _ k]) auto
    next
      case (Some a)
      have "images_loop pf fp mem print_images n i st = ?st'"
        using True Some by (subst images_loop.simps) (simp add: Let_def)
      then show ?thesis
        using P' True Some by (intro exI [of _ "Suc i"]) simp
    qed
  qed
qed

subsection \<open>What each block of the loop body changes\<close>

lemma decode_record_simps [simp]:
  "world (decode_record mem st) = world st"
  "trace (decode_record mem st) = trace st"
  "error (decode_record mem st) = error st"
  "misclass_count (decode_record mem st) = misclass_count st"
  "total_seconds (decode_record mem st) = total_seconds st"
  "expected_class (decode_record mem st) = unat (mem (ptr st))"
  "red (decode_record mem st) = ptr st + 1"
  "green (decode_record mem st) = ptr st + 1025"
  "blue (decode_record mem st) = ptr st + 2049"
  "ptr (decode_record mem st) = ptr st + 3073"
  by (simp_all add: decode_record_def Let_def CIFAR_PIXELS_SIZE_def)

lemma load_pixels_frame:
  assumes "\<And>s evs w e. f (emit evs (s\<lparr>world := w, error := e\<rparr>)) = f s"
  shows "f (load_pixels pf px j st) = f st"
proof (induction pf px j st rule: load_pixels.induct)
  case (1 pf px j st)
  show ?case
  proof (cases "j < CIFAR_PIXELS_SIZE")
    case False
    then show ?thesis by (subst load_pixels.simps) simp
  next
    case True
    obtain e w where call:
      "tensil_driver_load_model_input_vector_scalars pf j (px j) (world st) = (e, w)"
      by (cases "tensil_driver_load_model_input_vector_scalars pf j (px j) (world st)")
    show ?thesis
    proof (cases e)
      case None
      then show ?thesis
        using True call "1.IH" [OF True call [symmetric] refl] assms
        by (subst load_pixels.simps) simp
    next
      case (Some a)
      then show ?thesis
        using True call assms by (subst load_pixels.simps) simp
    qed
  qed
qed

lemma stage_input_simps [simp]:
  "misclass_count (stage_input pf fp mem st) = misclass_count st"
  "total_seconds (stage_input pf fp mem st) = total_seconds st"
  "ptr (stage_input pf fp mem st) = ptr st"
  "expected_class (stage_input pf fp mem st) = expected_class st"
  "red (stage_input pf fp mem st) = red st"
  "green (stage_input pf fp mem st) = green st"
  "blue (stage_input pf fp mem st) = blue st"
  unfolding stage_input_def Let_def
  by (rule load_pixels_frame, simp)+

lemma start_timer_simps [simp]:
  "trace (start_timer pf st) = trace st @ [Stopwatch_start (error (start_timer pf st))]"
  "misclass_count (start_timer pf st) = misclass_count st"
  "total_seconds (start_timer pf st) = total_seconds st"
  "ptr (start_timer pf st) = ptr st"
  "expected_class (start_timer pf st) = expected_class st"
  "red (start_timer pf st) = red st"
  "green (start_timer pf st) = green st"
  "blue (start_timer pf st) = blue st"
  by (simp_all add: start_timer_def split: prod.splits)

lemma execute_simps [simp]:
  "trace (execute pf st) = trace st @ [Driver_run (error (execute pf st))]"
  "misclass_count (execute pf st) = misclass_count st"
  "total_seconds (execute pf st) = total_seconds st"
  "ptr (execute pf st) = ptr st"
  "expected_class (execute pf st) = expected_class st"
  "red (execute pf st) = red st"
  "green (execute pf st) = green st"
  "blue (execute pf st) = blue st"
  by (simp_all add: execute_def split: prod.splits)

lemma stop_timer_simps [simp]:
  "trace (stop_timer pf fp st)
     = trace st @ [Stopwatch_stop, Stopwatch_elapsed_seconds (seconds (stop_timer pf fp st))]"
  "error (stop_timer pf fp st) = error st"
  "misclass_count (stop_timer pf fp st) = misclass_count st"
  "total_seconds (stop_timer pf fp st)
     = f_add fp (total_seconds st) (seconds (stop_timer pf fp st))"
  "ptr (stop_timer pf fp st) = ptr st"
  "expected_class (stop_timer pf fp st) = expected_class st"
  "red (stop_timer pf fp st) = red st"
  "green (stop_timer pf fp st) = green st"
  "blue (stop_timer pf fp st) = blue st"
  by (simp_all add: stop_timer_def Let_def)

lemma get_output_simps [simp]:
  "trace (get_output pf st)
     = trace st @ [Get_output (error (get_output pf st))
                     (map (result (get_output pf st)) [0..<CIFAR_CLASSES_SIZE])]"
  "misclass_count (get_output pf st) = misclass_count st"
  "total_seconds (get_output pf st) = total_seconds st"
  "ptr (get_output pf st) = ptr st"
  "expected_class (get_output pf st) = expected_class st"
  "seconds (get_output pf st) = seconds st"
  "red (get_output pf st) = red st"
  "green (get_output pf st) = green st"
  "blue (get_output pf st) = blue st"
  by (simp_all add: get_output_def split: prod.splits)

lemma classify_simps [simp]:
  "world (classify fp st) = world st"
  "trace (classify fp st) = trace st"
  "error (classify fp st) = error st"
  "total_seconds (classify fp st) = total_seconds st"
  "ptr (classify fp st) = ptr st"
  "expected_class (classify fp st) = expected_class st"
  "seconds (classify fp st) = seconds st"
  "red (classify fp st) = red st"
  "green (classify fp st) = green st"
  "blue (classify fp st) = blue st"
  "actual_class (classify fp st) = argmax (f_gt fp) CIFAR_CLASSES_SIZE (result st)"
  "misclass_count (classify fp st)
     = (if argmax (f_gt fp) CIFAR_CLASSES_SIZE (result st) \<noteq> expected_class st
        then misclass_count st + 1 else misclass_count st)"
  by (simp_all add: classify_def Let_def)

lemma report_simps [simp]:
  "misclass_count (report pf fp mem i st) = misclass_count st"
  "total_seconds (report pf fp mem i st) = total_seconds st"
  "ptr (report pf fp mem i st) = ptr st"
  by (simp_all add: report_def Let_def split: prod.splits)

text \<open>
  The events of the reporter: console output, then on every hundredth image the
  diagnostic print, which may fail, and after it console output again.
\<close>

lemma report_trace:
  obtains c where "trace (report pf fp mem i st) = trace st @ c"
      "\<forall>ev\<in>set c. console ev" "error (report pf fp mem i st) = error st"
      "world (report pf fp mem i st) = world st" "i mod 100 \<noteq> 0"
  | c c' where "trace (report pf fp mem i st)
                  = trace st @ c @ Print_output (error (report pf fp mem i st)) # c'"
      "\<forall>ev\<in>set c. console ev" "\<forall>ev\<in>set c'. console ev"
      "error (report pf fp mem i st) \<noteq> None \<longrightarrow> c' = []"
      "tensil_driver_print_model_output_vectors pf (world st)
         = (error (report pf fp mem i st), world (report pf fp mem i st))"
      "i mod 100 = 0"
proof (cases "i mod 100 = 0")
  case False
  then show ?thesis
    by (intro that(1) [of "[Console_set_cursor_position 1 1,
          Printf_progress i (f_to_d fp (f_div fp (f_of_nat fp 1) (seconds st)))
            (progress ! (i mod 4))]"]) (simp_all add: report_def Let_def)
next
  case True
  obtain e w where call: "tensil_driver_print_model_output_vectors pf (world st) = (e, w)"
    by (cases "tensil_driver_print_model_output_vectors pf (world st)")
  let ?c = "[Console_set_cursor_position 1 1,
             Printf_progress i (f_to_d fp (f_div fp (f_of_nat fp 1) (seconds st)))
               (progress ! (i mod 4)), Printf_image]
            @ print_image (\<lambda>k. mem (red st + k)) (\<lambda>k. mem (green st + k))
                (\<lambda>k. mem (blue st + k)) 0
            @ [Printf_newline, Console_reset_background_color, Printf_result]"
  let ?c' = "if e \<noteq> None then []
             else [if actual_class st = expected_class st
                   then Console_set_foreground_color 0 255 0
                   else Console_set_foreground_color 255 0 0,
                   Printf_classes (cifar_class (expected_class st)) (cifar_class (actual_class st)),
                   Console_reset_foreground_color]"
  show ?thesis
    using True call console_print_image [of "\<lambda>k. mem (red st + k)" "\<lambda>k. mem (green st + k)"
        "\<lambda>k. mem (blue st + k)" 0]
    by (intro that(2) [of ?c ?c']) (auto simp: report_def Let_def)
qed

subsection \<open>The stopwatch\<close>

lemma stage_input_timer:
  assumes "error st = None" "timer_after (trace st) = Spent"
  shows "timer_after (trace (stage_input pf fp mem st)) = Ready"
proof -
  let ?px = "pixel fp (\<lambda>k. mem (red st + k)) (\<lambda>k. mem (green st + k)) (\<lambda>k. mem (blue st + k))
    (channel_mean fp CIFAR_PIXELS_SIZE (\<lambda>k. mem (red st + k)))
    (channel_mean fp CIFAR_PIXELS_SIZE (\<lambda>k. mem (green st + k)))
    (channel_mean fp CIFAR_PIXELS_SIZE (\<lambda>k. mem (blue st + k)))"
  let ?P = "\<lambda>k s. timer_after (trace s) = (if k = 0 then Spent else Ready)"
  have "\<exists>k. ?P k (load_pixels pf ?px 0 st) \<and> 0 \<le> k \<and> (k \<le> CIFAR_PIXELS_SIZE \<or> k = 0)
          \<and> (k < CIFAR_PIXELS_SIZE \<longrightarrow> error (load_pixels pf ?px 0 st) \<noteq> None)
          \<and> (error (load_pixels pf ?px 0 st) \<noteq> None \<longrightarrow> 0 < k)"
    using assms by (intro load_pixels_rule) (auto simp: timer_step_def)
  then show ?thesis
    by (auto simp: stage_input_def Let_def CIFAR_PIXELS_SIZE_def split: if_splits)
qed

lemma report_timer:
  assumes "timer_after (trace st) = Spent"
  shows "timer_after (trace (report pf fp mem i st)) = Spent"
proof (cases rule: report_trace [of pf fp mem i st])
  case (1 c)
  then show ?thesis using assms by (simp add: console_timer)
next
  case (2 c c')
  then show ?thesis using assms by (simp add: console_timer timer_step_def)
qed

lemma process_image_timer:
  assumes "error st = None" "timer_after (trace st) = Spent"
  shows "timed (process_image pf fp mem print_images i st)"
proof -
  let ?st1 = "stage_input pf fp mem (decode_record mem st)"
  have t1: "timer_after (trace ?st1) = Ready"
    using assms by (simp add: stage_input_timer)
  show ?thesis
    unfolding process_image_def Let_def timed_def
    by (simp add: t1 timer_step_def report_timer)
qed

lemma images_loop_timer:
  assumes "error st = None" "timer_after (trace st) = Spent"
  shows "timed (images_loop pf fp mem print_images n i st)"
proof -
  let ?r = "images_loop pf fp mem print_images n i st"
  have "\<exists>k. timed ?r \<and> i \<le> k \<and> (k \<le> n \<or> k = i) \<and> (k < n \<longrightarrow> error ?r \<noteq> None)
          \<and> (error ?r \<noteq> None \<longrightarrow> i < k)"
    using assms
    by (intro images_loop_rule [where P = "\<lambda>k. timed"])
      (auto simp: timed_def dest: process_image_timer [unfolded timed_def])
  then show ?thesis by blast
qed

subsection \<open>The accumulated time\<close>

lemma stage_input_elapsed:
  assumes "error st = None"
  shows "elapsed_times (trace (stage_input pf fp mem st)) = elapsed_times (trace st)"
    "outputs (trace (stage_input pf fp mem st)) = outputs (trace st)"
    "filter is_summary (trace (stage_input pf fp mem st)) = filter is_summary (trace st)"
proof -
  let ?px = "pixel fp (\<lambda>k. mem (red st + k)) (\<lambda>k. mem (green st + k)) (\<lambda>k. mem (blue st + k))
    (channel_mean fp CIFAR_PIXELS_SIZE (\<lambda>k. mem (red st + k)))
    (channel_mean fp CIFAR_PIXELS_SIZE (\<lambda>k. mem (green st + k)))
    (channel_mean fp CIFAR_PIXELS_SIZE (\<lambda>k. mem (blue st + k)))"
  let ?P = "\<lambda>k s. elapsed_times (trace s) = elapsed_times (trace st)
              \<and> outputs (trace s) = outputs (trace st)
              \<and> filter is_summary (trace s) = filter is_summary (trace st)"
  have "\<exists>k. ?P k (load_pixels pf ?px 0 st) \<and> 0 \<le> k \<and> (k \<le> CIFAR_PIXELS_SIZE \<or> k = 0)
          \<and> (k < CIFAR_PIXELS_SIZE \<longrightarrow> error (load_pixels pf ?px 0 st) \<noteq> None)
          \<and> (error (load_pixels pf ?px 0 st) \<noteq> None \<longrightarrow> 0 < k)"
    using assms by (intro load_pixels_rule) (auto simp: is_summary_def)
  then show "elapsed_times (trace (stage_input pf fp mem st)) = elapsed_times (trace st)"
    "outputs (trace (stage_input pf fp mem st)) = outputs (trace st)"
    "filter is_summary (trace (stage_input pf fp mem st)) = filter is_summary (trace st)"
    by (auto simp: stage_input_def Let_def)
qed

lemma console_quiet:
  assumes "\<forall>ev\<in>set c. console ev"
  shows "elapsed_times c = []" "outputs c = []" "staged_inputs c = []" "filter is_summary c = []"
  using console_observations [OF assms] by (simp_all add: filter_empty_conv)

lemma report_elapsed:
  "elapsed_times (trace (report pf fp mem i st)) = elapsed_times (trace st)"
  "outputs (trace (report pf fp mem i st)) = outputs (trace st)"
  "staged_inputs (trace (report pf fp mem i st)) = staged_inputs (trace st)"
  "filter is_summary (trace (report pf fp mem i st)) = filter is_summary (trace st)"
proof -
  have "elapsed_times (trace (report pf fp mem i st)) = elapsed_times (trace st)
   \<and> outputs (trace (report pf fp mem i st)) = outputs (trace st)
   \<and> staged_inputs (trace (report pf fp mem i st)) = staged_inputs (trace st)
   \<and> filter is_summary (trace (report pf fp mem i st)) = filter is_summary (trace st)"
  proof (cases rule: report_trace [of pf fp mem i st])
    case (1 c)
    then show ?thesis by (simp add: console_quiet)
  next
    case (2 c c')
    then show ?thesis by (simp add: console_quiet is_summary_def)
  qed
  then show "elapsed_times (trace (report pf fp mem i st)) = elapsed_times (trace st)"
    "outputs (trace (report pf fp mem i st)) = outputs (trace st)"
    "staged_inputs (trace (report pf fp mem i st)) = staged_inputs (trace st)"
    "filter is_summary (trace (report pf fp mem i st)) = filter is_summary (trace st)"
    by simp_all
qed



lemma process_image_accumulated:
  assumes "error st = None" "accumulated fp st"
  shows "accumulated fp (process_image pf fp mem print_images i st)"
  using assms unfolding process_image_def Let_def accumulated_def
  by (simp add: stage_input_elapsed report_elapsed)

lemma images_loop_accumulated:
  assumes "error st = None" "accumulated fp st"
  shows "accumulated fp (images_loop pf fp mem print_images n i st)"
proof -
  let ?r = "images_loop pf fp mem print_images n i st"
  have "\<exists>k. accumulated fp ?r \<and> i \<le> k \<and> (k \<le> n \<or> k = i) \<and> (k < n \<longrightarrow> error ?r \<noteq> None)
          \<and> (error ?r \<noteq> None \<longrightarrow> i < k)"
    using assms
    by (intro images_loop_rule [where P = "\<lambda>k. accumulated fp"])
      (auto intro: process_image_accumulated)
  then show ?thesis by blast
qed

subsection \<open>Errors\<close>

lemma failure_simps [simp]:
  "failure (Load_input j px e) = e"
  "failure (Stopwatch_start e) = e"
  "failure (Driver_run e) = e"
  "failure (Get_output e out) = e"
  "failure (Print_output e) = e"
  "failure Stopwatch_stop = None"
  "failure (Stopwatch_elapsed_seconds s) = None"
  "failure Printf_testing = None"
  "failure (Printf_reading f) = None"
  "failure (Printf_summary n a t) = None"
  by (simp_all add: failure_def)

lemma sound_call:
  "sound st \<Longrightarrow> error st = None \<Longrightarrow> error st' = failure ev \<Longrightarrow> trace st' = trace st @ [ev]
    \<Longrightarrow> sound st'"
  by (auto simp: sound_def split: option.splits)

lemma sound_quiet:
  "sound st \<Longrightarrow> error st = None \<Longrightarrow> \<forall>ev\<in>set evs. failure ev = None \<Longrightarrow> error st' = None
    \<Longrightarrow> trace st' = trace st @ evs \<Longrightarrow> sound st'"
  by (auto simp: sound_def split: option.splits)

lemma stage_input_sound:
  fixes st :: "('s, 'f, 'd) state"
  assumes "error st = None" "sound st"
  shows "sound (stage_input pf fp mem st)"
proof -
  let ?px = "pixel fp (\<lambda>k. mem (red st + k)) (\<lambda>k. mem (green st + k)) (\<lambda>k. mem (blue st + k))
    (channel_mean fp CIFAR_PIXELS_SIZE (\<lambda>k. mem (red st + k)))
    (channel_mean fp CIFAR_PIXELS_SIZE (\<lambda>k. mem (green st + k)))
    (channel_mean fp CIFAR_PIXELS_SIZE (\<lambda>k. mem (blue st + k)))"
  have "\<exists>k. sound (load_pixels pf ?px 0 st) \<and> 0 \<le> k \<and> (k \<le> CIFAR_PIXELS_SIZE \<or> k = 0)
          \<and> (k < CIFAR_PIXELS_SIZE \<longrightarrow> error (load_pixels pf ?px 0 st) \<noteq> None)
          \<and> (error (load_pixels pf ?px 0 st) \<noteq> None \<longrightarrow> 0 < k)"
  proof (intro load_pixels_rule [where P = "\<lambda>k. sound"])
    fix k e w and s :: "('s, 'f, 'd) state"
    assume "sound s" "error s = None"
    then show "sound (emit [Load_input k (?px k) e] (s\<lparr>world := w, error := e\<rparr>))"
      by (rule sound_call) simp_all
  qed (use assms in simp_all)
  then show ?thesis
    by (auto simp: stage_input_def Let_def)
qed

lemma report_sound:
  assumes "error st = None" "sound st"
  shows "sound (report pf fp mem i st)"
proof (cases rule: report_trace [of pf fp mem i st])
  case (1 c)
  have q: "\<forall>ev\<in>set c. failure ev = None"
    using 1(2) by (rule console_observations(4))
  have e: "error (report pf fp mem i st) = None"
    using 1(3) assms(1) by simp
  show ?thesis
    by (rule sound_quiet [OF assms(2) assms(1) q e 1(1)])
next
  case (2 c c')
  let ?r = "report pf fp mem i st"
  have qc: "\<forall>ev\<in>set c. failure ev = None"
    using 2(2) by (rule console_observations(4))
  have qc': "\<forall>ev\<in>set c'. failure ev = None"
    using 2(3) by (rule console_observations(4))
  have quiet: "\<forall>ev\<in>set (trace st @ c). failure ev = None"
    using assms qc by (auto simp: sound_def)
  show ?thesis
  proof (cases "error ?r")
    case None
    then have "\<forall>ev\<in>set (trace ?r). failure ev = None"
      using quiet qc' by (auto simp: 2(1))
    then show ?thesis
      using None by (simp add: sound_def)
  next
    case (Some a)
    then have "c' = []" using 2(4) by simp
    then have "trace ?r = (trace st @ c) @ [Print_output (Some a)]"
      using Some by (simp add: 2(1))
    then show ?thesis
      using Some quiet by (simp add: sound_def del: append_assoc)
  qed
qed

lemma process_image_sound:
  assumes "error st = None" "sound st"
  shows "sound (process_image pf fp mem print_images i st)"
proof -
  let ?st1 = "stage_input pf fp mem (decode_record mem st)"
  let ?st2 = "start_timer pf ?st1"
  let ?st3 = "execute pf ?st2"
  let ?st3' = "stop_timer pf fp ?st3"
  let ?st4 = "get_output pf ?st3'"
  let ?st5 = "classify fp ?st4"
  have "sound (decode_record mem st)"
    using assms by (simp add: sound_def)
  then have s1: "sound ?st1"
    using assms by (intro stage_input_sound) simp_all
  have s2: "sound ?st2" if "error ?st1 = None"
    using s1 that by (rule sound_call) simp_all
  have s3: "sound ?st3" if "error ?st1 = None" "error ?st2 = None"
    using s2 [OF that(1)] that(2) by (rule sound_call) simp_all
  have s3': "sound ?st3'" if "error ?st1 = None" "error ?st2 = None" "error ?st3 = None"
    using s3 [OF that(1,2)] that(3) by (rule sound_quiet) (simp_all add: that)
  have s4: "sound ?st4" if "error ?st1 = None" "error ?st2 = None" "error ?st3 = None"
    using s3' [OF that] by (rule sound_call) (simp_all add: that)
  have s5: "sound ?st5"
    if "error ?st1 = None" "error ?st2 = None" "error ?st3 = None" "error ?st4 = None"
    using s4 [OF that(1,2,3)] that(4) by (rule sound_quiet [where evs = "[]"]) (simp_all add: that)
  show ?thesis
    unfolding process_image_def Let_def
    using s1 s2 s3 s4 s5 by (simp add: report_sound)
qed

lemma images_loop_sound:
  assumes "error st = None" "sound st"
  shows "sound (images_loop pf fp mem print_images n i st)"
proof -
  let ?r = "images_loop pf fp mem print_images n i st"
  have "\<exists>k. sound ?r \<and> i \<le> k \<and> (k \<le> n \<or> k = i) \<and> (k < n \<longrightarrow> error ?r \<noteq> None)
          \<and> (error ?r \<noteq> None \<longrightarrow> i < k)"
    using assms
    by (intro images_loop_rule [where P = "\<lambda>k. sound"]) (auto intro: process_image_sound)
  then show ?thesis by blast
qed

subsection \<open>Records, inputs and predictions\<close>

lemma expected_inputs_Suc:
  "expected_inputs fp mem (Suc n) = expected_inputs fp mem n @ image_inputs fp mem n"
  by (simp add: expected_inputs_def)

lemma misclassified_snoc:
  "misclassified fp mem (outs @ [out])
     = misclassified fp mem outs
       + (if argmax (f_gt fp) CIFAR_CLASSES_SIZE ((!) out) \<noteq> unat (mem (3073 * length outs))
          then 1 else 0)"
  by (simp add: misclassified_def)

lemma argmax_loop_cong:
  assumes "\<forall>k. k < sz \<longrightarrow> b k = b' k"
  shows "argmax_loop gt sz b i mx mx_i = argmax_loop gt sz b' i mx mx_i"
  using assms
proof (induction gt sz b i mx mx_i rule: argmax_loop.induct)
  case (1 gt sz b i mx mx_i)
  show ?case
  proof (cases "i < sz")
    case False
    then show ?thesis
      by (subst argmax_loop.simps, subst (2) argmax_loop.simps) simp
  next
    case True
    then have eq: "b i = b' i" using "1.prems" by simp
    show ?thesis
      using True eq "1.IH" "1.prems"
      by (subst argmax_loop.simps, subst (2) argmax_loop.simps) auto
  qed
qed

lemma argmax_logged:
  "argmax gt CIFAR_CLASSES_SIZE ((!) (map res [0..<CIFAR_CLASSES_SIZE])) = argmax gt CIFAR_CLASSES_SIZE res"
  unfolding argmax_def
  by (simp add: CIFAR_CLASSES_SIZE_def) (rule argmax_loop_cong, simp)

lemma stage_input_staged:
  fixes st :: "('s, 'f, 'd) state"
  assumes "error st = None" "red st = 3073 * i + 1" "green st = 3073 * i + 1025"
    "blue st = 3073 * i + 2049"
  shows "\<exists>k. staged_inputs (trace (stage_input pf fp mem st))
               = staged_inputs (trace st) @ take k (image_inputs fp mem i)
             \<and> (error (stage_input pf fp mem st) = None \<longrightarrow> k = 1024)"
proof -
  let ?px = "pixel fp (\<lambda>k. mem (red st + k)) (\<lambda>k. mem (green st + k)) (\<lambda>k. mem (blue st + k))
    (channel_mean fp CIFAR_PIXELS_SIZE (\<lambda>k. mem (red st + k)))
    (channel_mean fp CIFAR_PIXELS_SIZE (\<lambda>k. mem (green st + k)))
    (channel_mean fp CIFAR_PIXELS_SIZE (\<lambda>k. mem (blue st + k)))"
  let ?P = "\<lambda>k (s :: ('s, 'f, 'd) state).
              staged_inputs (trace s) = staged_inputs (trace st) @ map (\<lambda>j. (j, ?px j)) [0..<k]"
  have px: "(\<lambda>j. (j, ?px j))
              = (\<lambda>j. (j, [normalized fp mem i 0 j, normalized fp mem i 1 j, normalized fp mem i 2 j]))"
    using assms(2-4)
    by (simp add: pixel_def normalized_def CIFAR_PIXELS_SIZE_def ac_simps)
  have "\<exists>k. ?P k (load_pixels pf ?px 0 st) \<and> 0 \<le> k \<and> (k \<le> CIFAR_PIXELS_SIZE \<or> k = 0)
          \<and> (k < CIFAR_PIXELS_SIZE \<longrightarrow> error (load_pixels pf ?px 0 st) \<noteq> None)
          \<and> (error (load_pixels pf ?px 0 st) \<noteq> None \<longrightarrow> 0 < k)"
    using assms(1) by (intro load_pixels_rule) simp_all
  then obtain k where k: "?P k (load_pixels pf ?px 0 st)" "k \<le> CIFAR_PIXELS_SIZE"
    "k < CIFAR_PIXELS_SIZE \<longrightarrow> error (load_pixels pf ?px 0 st) \<noteq> None"
    by auto
  have "map (\<lambda>j. (j, ?px j)) [0..<k] = take k (image_inputs fp mem i)"
    using k(2) unfolding px image_inputs_def
    by (simp add: take_map CIFAR_PIXELS_SIZE_def min_def)
  then show ?thesis
    using k by (intro exI [of _ k]) (auto simp: stage_input_def Let_def CIFAR_PIXELS_SIZE_def)
qed

lemma length_image_inputs [simp]: "length (image_inputs fp mem i) = 1024"
  by (simp add: image_inputs_def)

lemma decoded_report:
  assumes "decoded fp mem i st" "error st = None"
  shows "decoded fp mem i (report pf fp mem' k st)"
proof -
  have "ptr (report pf fp mem' k st) = ptr st"
    "misclass_count (report pf fp mem' k st) = misclass_count st"
    "outputs (trace (report pf fp mem' k st)) = outputs (trace st)"
    "staged_inputs (trace (report pf fp mem' k st)) = staged_inputs (trace st)"
    "elapsed_times (trace (report pf fp mem' k st)) = elapsed_times (trace st)"
    by (simp_all add: report_elapsed)
  then show ?thesis
    using assms unfolding decoded_def by simp
qed

lemma process_image_decoded:
  fixes st :: "('s, 'f, 'd) state"
  assumes "error st = None" "decoded fp mem i st"
  shows "decoded fp mem (Suc i) (process_image pf fp mem print_images i st)"
proof -
  let ?st0 = "decode_record mem st"
  let ?st1 = "stage_input pf fp mem ?st0"
  let ?st2 = "start_timer pf ?st1"
  let ?st3 = "execute pf ?st2"
  let ?st3' = "stop_timer pf fp ?st3"
  let ?st4 = "get_output pf ?st3'"
  let ?st5 = "classify fp ?st4"
  let ?outs = "outputs (trace st)"
  let ?out = "map (result ?st4) [0..<CIFAR_CLASSES_SIZE]"
  from assms have inv: "ptr st = 3073 * i" "misclass_count st = misclassified fp mem ?outs"
    "length ?outs = i" "staged_inputs (trace st) = expected_inputs fp mem i"
    "length (elapsed_times (trace st)) = i"
    by (simp_all add: decoded_def)
  obtain k where k: "staged_inputs (trace ?st1)
      = expected_inputs fp mem i @ take k (image_inputs fp mem i)"
    "error ?st1 = None \<longrightarrow> k = 1024"
    using stage_input_staged [of ?st0 i pf fp mem] assms(1) inv by auto
  have o1: "outputs (trace ?st1) = ?outs"
    using assms(1) by (simp add: stage_input_elapsed)
  define F where "F s \<longleftrightarrow> ptr s = 3073 * Suc i \<and> misclass_count s = misclassified fp mem ?outs
      \<and> outputs (trace s) = ?outs
      \<and> staged_inputs (trace s) = expected_inputs fp mem i @ take k (image_inputs fp mem i)"
    for s :: "('s, 'f, 'd) state"
  have failed: "decoded fp mem (Suc i) s" if "F s" "error s \<noteq> None" for s
    using that inv(3) by (auto simp: F_def decoded_def expected_inputs_Suc take_is_prefix)
  have f1: "F ?st1" using k(1) o1 inv by (simp add: F_def)
  then have f2: "F ?st2" by (simp add: F_def)
  then have f3: "F ?st3" by (simp add: F_def)
  then have f3': "F ?st3'" by (simp add: F_def)
  have f4: "F ?st4" if "error ?st4 \<noteq> None"
    using f3' that by (simp add: F_def)
  have d5: "decoded fp mem (Suc i) ?st5"
    if ok: "error ?st1 = None" "error ?st4 = None"
  proof -
    have "k = 1024" using k(2) ok(1) by simp
    then have staged: "staged_inputs (trace ?st5) = expected_inputs fp mem (Suc i)"
      using f3' by (simp add: F_def expected_inputs_Suc)
    have outs: "outputs (trace ?st5) = ?outs @ [?out]"
      using f3' ok(2) by (simp add: F_def)
    have "misclass_count ?st5 = misclassified fp mem (?outs @ [?out])"
      using f3' inv(1,3) unfolding misclassified_snoc
      by (simp add: F_def argmax_logged)
    moreover have "length (elapsed_times (trace ?st5)) = Suc i"
      using assms(1) inv(5) by (simp add: stage_input_elapsed)
    ultimately show ?thesis
      using staged outs inv(3) f3' ok(2) by (simp add: decoded_def F_def)
  qed
  have d6: "decoded fp mem (Suc i) (report pf fp mem i ?st5)"
    if ok: "error ?st1 = None" "error ?st4 = None"
    using d5 [OF ok] ok(2) by (intro decoded_report) simp_all
  show ?thesis
    unfolding process_image_def Let_def
    using failed [OF f1] failed [OF f2] failed [OF f3] f4 failed [of ?st4] d5 d6
    by auto
qed

lemma images_loop_decoded:
  fixes st :: "('s, 'f, 'd) state"
  assumes "error st = None" "decoded fp mem i st" "i \<le> n"
  shows "\<exists>k. decoded fp mem k (images_loop pf fp mem print_images n i st) \<and> k \<le> n
           \<and> (error (images_loop pf fp mem print_images n i st) = None \<longrightarrow> k = n)"
proof -
  let ?r = "images_loop pf fp mem print_images n i st"
  have "\<exists>k. decoded fp mem k ?r \<and> i \<le> k \<and> (k \<le> n \<or> k = i) \<and> (k < n \<longrightarrow> error ?r \<noteq> None)
          \<and> (error ?r \<noteq> None \<longrightarrow> i < k)"
    using assms(1,2)
    by (intro images_loop_rule [where P = "decoded fp mem"])
      (auto intro: process_image_decoded)
  then show ?thesis
    using assms(3) by (metis le_neq_implies_less)
qed

subsection \<open>The summary line\<close>

lemma process_image_no_summary:
  assumes "error st = None" "filter is_summary (trace st) = []"
  shows "filter is_summary (trace (process_image pf fp mem print_images i st)) = []"
  using assms unfolding process_image_def Let_def
  by (simp add: stage_input_elapsed report_elapsed is_summary_def)

lemma images_loop_no_summary:
  assumes "error st = None" "filter is_summary (trace st) = []"
  shows "filter is_summary (trace (images_loop pf fp mem print_images n i st)) = []"
proof -
  let ?r = "images_loop pf fp mem print_images n i st"
  have "\<exists>k. filter is_summary (trace ?r) = [] \<and> i \<le> k \<and> (k \<le> n \<or> k = i)
          \<and> (k < n \<longrightarrow> error ?r \<noteq> None) \<and> (error ?r \<noteq> None \<longrightarrow> i < k)"
    using assms
    by (intro images_loop_rule [where P = "\<lambda>k s. filter is_summary (trace s) = []"])
      (auto intro: process_image_no_summary)
  then show ?thesis by blast
qed

subsection \<open>The function from line 84\<close>

lemma console_cleanup: "\<forall>ev\<in>set (cleanup print_images). console ev"
  by (auto simp: cleanup_def)

lemma initial_simps [simp]:
  "world (initial fp w) = w"
  "trace (initial fp w) = []"
  "error (initial fp w) = None"
  "misclass_count (initial fp w) = 0"
  "total_seconds (initial fp w) = f_of_nat fp 0"
  "ptr (initial fp w) = 0"
  by (simp_all add: initial_def)

lemma test_on_buffer_unfold:
  "test_on_buffer pf fp print_images fsize w =
     (let st = at_cleanup pf fp print_images fsize w
      in if error st = None
         then emit (cleanup print_images @
                [Printf_summary (fsize div 3073)
                   (d_sub fp (d_of_nat fp 1)
                      (f_to_d fp (f_div fp (f_of_nat fp (misclass_count st))
                                           (f_of_nat fp (fsize div 3073)))))
                   (f_to_d fp (f_div fp (f_of_nat fp (fsize div 3073)) (total_seconds st)))]) st
         else emit (cleanup print_images) st)"
  by (simp add: test_on_buffer_def at_cleanup_def cleanup_def Let_def CIFAR_PIXELS_SIZE_def
      emit_def)

lemma at_cleanup_invariants:
  fixes pf :: "('s, 'f) platform" and fp :: "('f, 'd) fpu" and print_images fsize w
  defines "st \<equiv> at_cleanup pf fp print_images fsize w"
  shows "sound st" "timed st" "accumulated fp st" "filter is_summary (trace st) = []"
    "\<exists>k. decoded fp (dram pf w) k st \<and> k \<le> fsize div 3073
       \<and> (error st = None \<longrightarrow> k = fsize div 3073)"
proof -
  let ?st0 = "(if print_images
               then emit [Console_clear_screen] (emit [Printf_testing] (initial fp w))
               else emit [Printf_testing] (initial fp w)) :: ('s, 'f, 'd) state"
  have e0: "error ?st0 = None" by simp
  have "sound ?st0" by (simp add: sound_def failure_def)
  then show "sound st"
    unfolding st_def at_cleanup_def using e0 by (intro images_loop_sound)
  have "timer_after (trace ?st0) = Spent" by (simp add: timer_after_def timer_step_def)
  then show "timed st"
    unfolding st_def at_cleanup_def using e0 by (intro images_loop_timer)
  have "accumulated fp ?st0" by (simp add: accumulated_def)
  then show "accumulated fp st"
    unfolding st_def at_cleanup_def using e0 by (intro images_loop_accumulated)
  have "filter is_summary (trace ?st0) = []" by (simp add: is_summary_def)
  then show "filter is_summary (trace st) = []"
    unfolding st_def at_cleanup_def using e0 by (intro images_loop_no_summary)
  have "decoded fp (dram pf w) 0 ?st0"
    by (simp add: decoded_def misclassified_def expected_inputs_def)
  then show "\<exists>k. decoded fp (dram pf w) k st \<and> k \<le> fsize div 3073
       \<and> (error st = None \<longrightarrow> k = fsize div 3073)"
    unfolding st_def at_cleanup_def using e0 by (intro images_loop_decoded) simp_all
qed

subsection \<open>One interval for every image\<close>




subsection \<open>The reads of the table of class names\<close>

lemma argmax_in_range: "argmax gt CIFAR_CLASSES_SIZE buffer < CIFAR_CLASSES_SIZE"
  by (simp add: argmax_def argmax_loop_bound CIFAR_CLASSES_SIZE_def)

lemma cifar_class_in_range: "k < CIFAR_CLASSES_SIZE \<Longrightarrow> cifar_class k \<noteq> None"
  by (simp add: cifar_class_def cifar_classes_def CIFAR_CLASSES_SIZE_def)

lemma table_overrun_simps [simp]:
  "table_overrun (Printf_classes x y) \<longleftrightarrow> x = None \<or> y = None"
  "\<not> table_overrun (Printf_reading name)"
  "\<not> table_overrun Printf_testing"
  "\<not> table_overrun Console_clear_screen"
  "\<not> table_overrun (Console_set_cursor_position a b)"
  "\<not> table_overrun (Load_input j px e)"
  "\<not> table_overrun (Stopwatch_start e)"
  "\<not> table_overrun (Driver_run e)"
  "\<not> table_overrun Stopwatch_stop"
  "\<not> table_overrun (Stopwatch_elapsed_seconds s)"
  "\<not> table_overrun (Get_output e out)"
  "\<not> table_overrun (Printf_progress i d c)"
  "\<not> table_overrun Printf_image"
  "\<not> table_overrun (Console_set_background_color r g bl)"
  "\<not> table_overrun Printf_newline"
  "\<not> table_overrun Printf_cell"
  "\<not> table_overrun Console_reset_background_color"
  "\<not> table_overrun Printf_result"
  "\<not> table_overrun (Print_output e)"
  "\<not> table_overrun (Console_set_foreground_color a b c')"
  "\<not> table_overrun Console_reset_foreground_color"
  "\<not> table_overrun (Printf_summary n acc t)"
  by (simp_all add: table_overrun_def)

lemma print_image_in_table: "filter table_overrun (print_image r g b j) = []"
proof (induction r g b j rule: print_image.induct)
  case (1 r g b j)
  then show ?case by (subst print_image.simps) simp
qed

lemma stage_input_in_table:
  assumes "error st = None"
  shows "filter table_overrun (trace (stage_input pf fp mem st))
           = filter table_overrun (trace st)"
proof -
  let ?px = "pixel fp (\<lambda>k. mem (red st + k)) (\<lambda>k. mem (green st + k)) (\<lambda>k. mem (blue st + k))
    (channel_mean fp CIFAR_PIXELS_SIZE (\<lambda>k. mem (red st + k)))
    (channel_mean fp CIFAR_PIXELS_SIZE (\<lambda>k. mem (green st + k)))
    (channel_mean fp CIFAR_PIXELS_SIZE (\<lambda>k. mem (blue st + k)))"
  let ?P = "\<lambda>k s. filter table_overrun (trace s) = filter table_overrun (trace st)"
  have "\<exists>k. ?P k (load_pixels pf ?px 0 st) \<and> 0 \<le> k \<and> (k \<le> CIFAR_PIXELS_SIZE \<or> k = 0)
          \<and> (k < CIFAR_PIXELS_SIZE \<longrightarrow> error (load_pixels pf ?px 0 st) \<noteq> None)
          \<and> (error (load_pixels pf ?px 0 st) \<noteq> None \<longrightarrow> 0 < k)"
    using assms by (intro load_pixels_rule) auto
  then show ?thesis
    by (auto simp: stage_input_def Let_def)
qed

lemma report_in_table:
  assumes "i mod 100 = 0 \<longrightarrow>
             expected_class st < CIFAR_CLASSES_SIZE \<and> actual_class st < CIFAR_CLASSES_SIZE"
  shows "filter table_overrun (trace (report pf fp mem i st)) = filter table_overrun (trace st)"
  using assms
  by (auto simp: report_def Let_def print_image_in_table
      dest: cifar_class_in_range split: prod.splits)

lemma process_image_in_table:
  assumes "error st = None" "filter table_overrun (trace st) = []"
    and "print_images \<and> i mod 100 = 0 \<longrightarrow> unat (mem (ptr st)) < CIFAR_CLASSES_SIZE"
  shows "filter table_overrun (trace (process_image pf fp mem print_images i st)) = []"
proof -
  let ?st4 = "get_output pf (stop_timer pf fp (execute pf (start_timer pf
                (stage_input pf fp mem (decode_record mem st)))))"
  have "filter table_overrun (trace (report pf fp mem i (classify fp ?st4)))
          = filter table_overrun (trace (classify fp ?st4))"
    if "print_images"
    using assms(3) that by (intro report_in_table) (simp add: argmax_in_range)
  then show ?thesis
    using assms(1,2) unfolding process_image_def Let_def
    by (simp add: stage_input_in_table)
qed

lemma images_loop_in_table:
  fixes st :: "('s, 'f, 'd) state"
  assumes "error st = None" "decoded fp mem i st" "filter table_overrun (trace st) = []"
    and "print_images \<longrightarrow>
           (\<forall>k. k < n \<longrightarrow> k mod 100 = 0 \<longrightarrow> unat (mem (3073 * k)) < CIFAR_CLASSES_SIZE)"
  shows "filter table_overrun (trace (images_loop pf fp mem print_images n i st)) = []"
proof -
  let ?r = "images_loop pf fp mem print_images n i st"
  let ?P = "\<lambda>k s. decoded fp mem k s \<and> filter table_overrun (trace s) = []"
  have step: "?P (Suc k) (process_image pf fp mem print_images k s)"
    if "?P k s" "error s = None" "k < n" for k and s :: "('s, 'f, 'd) state"
  proof -
    have "ptr s = 3073 * k" using that(1) by (simp add: decoded_def)
    then have "print_images \<and> k mod 100 = 0 \<longrightarrow> unat (mem (ptr s)) < CIFAR_CLASSES_SIZE"
      using assms(4) that(3) by simp
    then show ?thesis
      using that(1,2) by (simp add: process_image_decoded process_image_in_table)
  qed
  have "\<exists>k. ?P k ?r \<and> i \<le> k \<and> (k \<le> n \<or> k = i) \<and> (k < n \<longrightarrow> error ?r \<noteq> None)
          \<and> (error ?r \<noteq> None \<longrightarrow> i < k)"
    using assms(1,2,3) step by (intro images_loop_rule [where P = ?P]) simp_all
  then show ?thesis by blast
qed

lemma at_cleanup_in_table:
  fixes pf :: "('s, 'f) platform" and fp :: "('f, 'd) fpu"
  assumes "print_images \<longrightarrow>
             (\<forall>k. k < fsize div 3073 \<longrightarrow> k mod 100 = 0 \<longrightarrow>
                    unat (dram pf w (3073 * k)) < CIFAR_CLASSES_SIZE)"
  shows "filter table_overrun (trace (at_cleanup pf fp print_images fsize w)) = []"
proof -
  let ?st0 = "(if print_images
               then emit [Console_clear_screen] (emit [Printf_testing] (initial fp w))
               else emit [Printf_testing] (initial fp w)) :: ('s, 'f, 'd) state"
  have "error ?st0 = None" by simp
  moreover have "decoded fp (dram pf w) 0 ?st0"
    by (simp add: decoded_def misclassified_def expected_inputs_def)
  moreover have "filter table_overrun (trace ?st0) = []"
    by simp
  ultimately show ?thesis
    unfolding at_cleanup_def using assms by (intro images_loop_in_table)
qed

subsection \<open>The file\<close>

text \<open>
  The properties below are stated for \<open>test_on_buffer\<close>, the function from line 84.
  With the file read, the whole function is \<open>test_on_buffer\<close> after one line of output;
  when \<^verbatim>\<open>f_stat\<close> fails, it returns that error and nothing else happens.
\<close>

lemma test_resnet20v2_on_cifar_loaded:
  assumes "f_stat pf file_name w = (0, fsize, w1)" "f_open pf file_name w1 = (0, w2)"
    "f_read pf fsize w2 = (0, w3)"
  shows "test_resnet20v2_on_cifar pf fp file_name print_images w
           = (test_on_buffer pf fp print_images fsize (f_close pf w3))
               \<lparr>trace := Printf_reading file_name
                           # trace (test_on_buffer pf fp print_images fsize (f_close pf w3))\<rparr>"
  using assms by (simp add: test_resnet20v2_on_cifar_def Let_def)

lemma test_resnet20v2_on_cifar_no_file:
  assumes "f_stat pf file_name w = (res, fsize, w1)" "res \<noteq> 0"
  shows "error (test_resnet20v2_on_cifar pf fp file_name print_images w)
           = Some (TENSIL_FS_ERROR res)"
    "trace (test_resnet20v2_on_cifar pf fp file_name print_images w) = []"
  using assms by (simp_all add: test_resnet20v2_on_cifar_def fs_failure_def)

lemma failing_event_unique:
  assumes "xs @ x # ys = xs' @ x' # ys'"
    and "\<forall>a\<in>set xs. failure a = None" "\<forall>a\<in>set ys. failure a = None" "failure x' \<noteq> None"
  shows "xs' = xs \<and> x' = x \<and> ys' = ys"
  using assms
proof (induction xs arbitrary: xs')
  case Nil
  then show ?case by (cases xs') auto
next
  case (Cons a xs)
  then show ?case by (cases xs') auto
qed

lemma failed_no_output: "failure ev \<noteq> None \<Longrightarrow> outputs [ev] = []"
  by (cases ev) (simp_all add: failure_def)


text \<open>
  Claim C7. When the function returns without error, the last thing it writes is the
  summary line: its count is the number of records, its accuracy is 1 minus the
  misclassification count over that number, and its throughput is that number over
  the sum of the intervals read from the stopwatch, one per image. The
  misclassification count is the number of images whose score vector has its first
  maximum away from the label of the record. The witness has the intervals 0.1 and
  0.2: the throughput written is 2 / 0.3, and not the mean 7.5 of 10 and 5.
\<close>

theorem summary_statistics:
  fixes pf :: "('s, 'f) platform" and fp :: "('f, 'd) fpu"
  assumes "error (test_on_buffer pf fp print_images fsize w) = None"
  shows "last (trace (test_on_buffer pf fp print_images fsize w))
           = Printf_summary (fsize div 3073)
               (d_sub fp (d_of_nat fp 1)
                  (f_to_d fp (f_div fp
                     (f_of_nat fp (misclass_count (test_on_buffer pf fp print_images fsize w)))
                     (f_of_nat fp (fsize div 3073)))))
               (f_to_d fp (f_div fp (f_of_nat fp (fsize div 3073))
                  (foldl (f_add fp) (f_of_nat fp 0)
                     (elapsed_times (trace (test_on_buffer pf fp print_images fsize w))))))
         \<and> length (elapsed_times (trace (test_on_buffer pf fp print_images fsize w)))
             = fsize div 3073
         \<and> length (outputs (trace (test_on_buffer pf fp print_images fsize w))) = fsize div 3073
         \<and> misclass_count (test_on_buffer pf fp print_images fsize w)
             = misclassified fp (dram pf w)
                 (outputs (trace (test_on_buffer pf fp print_images fsize w)))"
proof -
  let ?st = "at_cleanup pf fp print_images fsize w"
  note inv = at_cleanup_invariants [where pf = pf and fp = fp and print_images = print_images and fsize = fsize and w = w]
  have ok: "error ?st = None"
    using assms unfolding test_on_buffer_unfold Let_def by (simp split: if_splits)
  then have d: "decoded fp (dram pf w) (fsize div 3073) ?st"
    using inv(5) by auto
  have q: "elapsed_times (cleanup print_images :: ('f, 'd) event list) = []"
    "outputs (cleanup print_images :: ('f, 'd) event list) = []"
    using console_cleanup by (rule console_quiet)+
  show ?thesis
    unfolding test_on_buffer_unfold Let_def
    using ok d q inv(3) by (simp add: decoded_def accumulated_def)
qed

text \<open>
  Claim C6. If a call of the driver or the stopwatch in the trace returned an error
  (input staging, stopwatch start, execution, output retrieval or the diagnostic
  print), then the function returns that error; no call before it had failed; after it
  the function only clears the screen and resets the cursor, and that when live
  reporting is on: no call is retried, no further image is staged, no summary line is
  written. The misclassification count is the number of misclassified images among
  those whose score vector was retrieved before the failure: an image that failed at
  staging, at the start of the stopwatch, at execution or at retrieval has none and is
  not counted.
\<close>

theorem first_failure_aborts:
  fixes pf :: "('s, 'f) platform" and fp :: "('f, 'd) fpu"
  assumes "trace (test_on_buffer pf fp print_images fsize w) = pre @ ev # post"
    and "failure ev = Some e"
  shows "error (test_on_buffer pf fp print_images fsize w) = Some e
         \<and> post = (if print_images
                    then [Console_clear_screen, Console_set_cursor_position 1 1] else [])
         \<and> (\<forall>ev'\<in>set pre. failure ev' = None)
         \<and> misclass_count (test_on_buffer pf fp print_images fsize w)
             = misclassified fp (dram pf w) (outputs pre)
         \<and> filter is_summary (trace (test_on_buffer pf fp print_images fsize w)) = []"
proof -
  let ?st = "at_cleanup pf fp print_images fsize w"
  let ?r = "test_on_buffer pf fp print_images fsize w"
  note inv = at_cleanup_invariants [where pf = pf and fp = fp and print_images = print_images and fsize = fsize and w = w]
  have qc: "\<forall>a\<in>set (cleanup print_images :: ('f, 'd) event list). failure a = None"
    using console_cleanup by (rule console_observations(4))
  have sc: "filter is_summary (cleanup print_images :: ('f, 'd) event list) = []"
    using console_cleanup by (rule console_quiet)
  show ?thesis
  proof (cases "error ?st")
    case None
    then have "\<forall>a\<in>set (trace ?r). failure a = None"
      using inv(1) qc unfolding test_on_buffer_unfold Let_def
      by (auto simp: sound_def)
    then have "failure ev = None"
      using assms(1) by simp
    then show ?thesis using assms(2) by simp
  next
    case (Some e')
    then obtain tr ev0 where tr: "trace ?st = tr @ [ev0]" "failure ev0 = Some e'"
      "\<forall>a\<in>set tr. failure a = None"
      using inv(1) by (auto simp: sound_def)
    have r: "?r = emit (cleanup print_images) ?st"
      using Some unfolding test_on_buffer_unfold Let_def by simp
    then have "tr @ ev0 # cleanup print_images = pre @ ev # post"
      using assms(1) tr(1) by simp
    then have eq: "pre = tr \<and> ev = ev0 \<and> post = cleanup print_images"
      using tr(3) qc assms(2) by (intro failing_event_unique) simp_all
    obtain k where "decoded fp (dram pf w) k ?st"
      using inv(5) by blast
    then have "misclass_count ?st = misclassified fp (dram pf w) (outputs (trace ?st))"
      by (simp add: decoded_def)
    also have "outputs (trace ?st) = outputs tr"
      using tr(1,2) failed_no_output [of ev0] by simp
    finally have "misclass_count ?r = misclassified fp (dram pf w) (outputs pre)"
      using eq r by simp
    moreover have "filter is_summary (trace ?r) = []"
      using inv(4) sc r by simp
    ultimately show ?thesis
      using eq tr(2,3) assms(2) Some r by (simp add: cleanup_def)
  qed
qed

lemma channel_mean_exact:
  "channel_mean exact_fpu n buffer = (\<Sum>i<n. real (unat (buffer i)) / 255) / real n"
proof -
  have "(\<Sum>k\<leftarrow>[0..<n]. real (unat (buffer k)) / 255) = (\<Sum>i<n. real (unat (buffer i)) / 255)"
    by (simp only: interv_sum_list_conv_sum_set_nat atLeast_upt [symmetric] lessThan_atLeast0)
  then show ?thesis
    unfolding channel_mean_def channel_mean_loop_foldl foldl_accumulate_exact
    by (simp add: exact_fpu_def)
qed

text \<open>
  Claim C1. The input vectors that the function hands to the driver are, in order,
  those of the specification: for image \<open>i\<close> (the record at offset \<open>3073 * i\<close>) and
  position \<open>j\<close>, at offset \<open>j\<close>, the three components \<open>normalized fp mem i c j\<close>, each the
  byte of channel \<open>c\<close> over 255.0 minus the mean of the 1024 bytes of that channel of that
  image. A run that stops at an error has staged a prefix of them, a run that completes
  all of them. Without rounding, the component is the byte over 255 minus the
  arithmetic mean of that channel of that record, whatever the other records hold.
\<close>

theorem inputs_are_normalized:
  fixes pf :: "('s, 'f) platform" and fp :: "('f, 'd) fpu"
  shows "prefix (staged_inputs (trace (test_on_buffer pf fp print_images fsize w)))
           (expected_inputs fp (dram pf w) (fsize div 3073))
         \<and> (error (test_on_buffer pf fp print_images fsize w) = None \<longrightarrow>
              staged_inputs (trace (test_on_buffer pf fp print_images fsize w))
                = expected_inputs fp (dram pf w) (fsize div 3073))
         \<and> normalized exact_fpu mem i c j
             = real (unat (mem (3073 * i + 1 + 1024 * c + j))) / 255
               - (\<Sum>k<1024. real (unat (mem (3073 * i + 1 + 1024 * c + k))) / 255) / 1024"
proof -
  let ?st = "at_cleanup pf fp print_images fsize w"
  let ?n = "fsize div 3073"
  note inv = at_cleanup_invariants [where pf = pf and fp = fp and print_images = print_images
      and fsize = fsize and w = w]
  obtain k where k: "decoded fp (dram pf w) k ?st" "k \<le> ?n" "error ?st = None \<longrightarrow> k = ?n"
    using inv(5) by auto
  have q: "staged_inputs (cleanup print_images :: ('f, 'd) event list) = []"
    using console_cleanup by (rule console_quiet)
  have "prefix (expected_inputs fp (dram pf w) k) (expected_inputs fp (dram pf w) ?n)"
    using k(2) unfolding expected_inputs_def
    by (metis le_Suc_ex prefixI upt_add_eq_append zero_le map_append concat_append)
  then have p: "prefix (staged_inputs (trace ?st)) (expected_inputs fp (dram pf w) ?n)"
    using k(1) by (auto simp: decoded_def intro: prefix_order.trans)
  have e: "staged_inputs (trace ?st) = expected_inputs fp (dram pf w) ?n" if "error ?st = None"
    using k that by (simp add: decoded_def)
  have "normalized exact_fpu mem i c j
             = real (unat (mem (3073 * i + 1 + 1024 * c + j))) / 255
               - (\<Sum>k<1024. real (unat (mem (3073 * i + 1 + 1024 * c + k))) / 255) / 1024"
    unfolding normalized_def channel_mean_exact
    by (simp add: exact_fpu_def CHANNEL_TO_FLOAT_def)
  then show ?thesis
    unfolding test_on_buffer_unfold Let_def
    using p e q by simp
qed

text \<open>
  Claim C3. For a file of \<open>fsize\<close> bytes the function processes \<open>fsize div 3073\<close>
  records, each of 3073 bytes: it never retrieves more score vectors than that, its
  pointer never passes the end of the file, and a run without error has retrieved
  exactly that many score vectors, staged 1024 inputs for each and left the pointer at
  \<open>3073 * (fsize div 3073)\<close>, the bytes after it unread. A file shorter than one record,
  the empty file among them, gives a run without error that stages nothing.
\<close>

theorem record_count:
  fixes pf :: "('s, 'f) platform" and fp :: "('f, 'd) fpu"
  shows "length (outputs (trace (test_on_buffer pf fp print_images fsize w))) \<le> fsize div 3073
         \<and> ptr (test_on_buffer pf fp print_images fsize w) \<le> fsize
         \<and> (error (test_on_buffer pf fp print_images fsize w) = None \<longrightarrow>
              length (outputs (trace (test_on_buffer pf fp print_images fsize w)))
                = fsize div 3073
              \<and> length (staged_inputs (trace (test_on_buffer pf fp print_images fsize w)))
                  = 1024 * (fsize div 3073)
              \<and> ptr (test_on_buffer pf fp print_images fsize w) = 3073 * (fsize div 3073)
              \<and> fsize - ptr (test_on_buffer pf fp print_images fsize w) < 3073)
         \<and> (fsize < 3073 \<longrightarrow>
              error (test_on_buffer pf fp print_images fsize w) = None
              \<and> staged_inputs (trace (test_on_buffer pf fp print_images fsize w)) = []
              \<and> outputs (trace (test_on_buffer pf fp print_images fsize w)) = [])"
proof -
  let ?st = "at_cleanup pf fp print_images fsize w"
  let ?n = "fsize div 3073"
  note inv = at_cleanup_invariants [where pf = pf and fp = fp and print_images = print_images
      and fsize = fsize and w = w]
  obtain k where k: "decoded fp (dram pf w) k ?st" "k \<le> ?n" "error ?st = None \<longrightarrow> k = ?n"
    using inv(5) by auto
  have q: "staged_inputs (cleanup print_images :: ('f, 'd) event list) = []"
    "outputs (cleanup print_images :: ('f, 'd) event list) = []"
    using console_cleanup by (rule console_quiet)+
  have len: "length (expected_inputs fp (dram pf w) m) = 1024 * m" for m
    by (induction m) (simp_all add: expected_inputs_Suc, simp add: expected_inputs_def)
  have "3073 * k \<le> fsize"
    using k(2) by (simp add: less_eq_div_iff_mult_less_eq mult.commute)
  then have a: "length (outputs (trace ?st)) \<le> ?n" "ptr ?st \<le> fsize"
    using k by (simp_all add: decoded_def)
  have b: "length (outputs (trace ?st)) = ?n \<and> length (staged_inputs (trace ?st)) = 1024 * ?n
      \<and> ptr ?st = 3073 * ?n \<and> fsize - ptr ?st < 3073" if "error ?st = None"
  proof -
    have "fsize - 3073 * ?n = fsize mod 3073"
      by (simp add: minus_mult_div_eq_mod)
    then show ?thesis
      using k that len by (simp add: decoded_def)
  qed
  have c: "error ?st = None \<and> staged_inputs (trace ?st) = [] \<and> outputs (trace ?st) = []"
    if "fsize < 3073"
    using that by (simp add: at_cleanup_def images_loop.simps)
  show ?thesis
    unfolding test_on_buffer_unfold Let_def
    using a b c q by (auto split: if_splits)
qed

subsection \<open>Platforms on which no call fails\<close>

lemma stage_error_simps:
  "error (start_timer pf st) = fst (stopwatch_start pf (world st))"
  "error (execute pf st) = fst (tensil_driver_run pf (world st))"
  "error (get_output pf st) = fst (tensil_driver_get_model_output_scalars pf (world st))"
  "error (report pf fp mem i st)
     = (if i mod 100 = 0 then fst (tensil_driver_print_model_output_vectors pf (world st))
        else error st)"
  by (simp_all add: start_timer_def execute_def get_output_def report_def Let_def
      split: prod.splits)

lemma reliable_stage_input:
  fixes st :: "('s, 'f, 'd) state"
  assumes "reliable print_images pf" "error st = None"
  shows "error (stage_input pf fp mem st) = None"
proof -
  let ?px = "pixel fp (\<lambda>k. mem (red st + k)) (\<lambda>k. mem (green st + k)) (\<lambda>k. mem (blue st + k))
    (channel_mean fp CIFAR_PIXELS_SIZE (\<lambda>k. mem (red st + k)))
    (channel_mean fp CIFAR_PIXELS_SIZE (\<lambda>k. mem (green st + k)))
    (channel_mean fp CIFAR_PIXELS_SIZE (\<lambda>k. mem (blue st + k)))"
  have "\<exists>k. error (load_pixels pf ?px 0 st) = None \<and> 0 \<le> k \<and> (k \<le> CIFAR_PIXELS_SIZE \<or> k = 0)
          \<and> (k < CIFAR_PIXELS_SIZE \<longrightarrow> error (load_pixels pf ?px 0 st) \<noteq> None)
          \<and> (error (load_pixels pf ?px 0 st) \<noteq> None \<longrightarrow> 0 < k)"
  proof (intro load_pixels_rule [where P = "\<lambda>k s. error s = None"])
    fix k e w and s :: "('s, 'f, 'd) state"
    assume "tensil_driver_load_model_input_vector_scalars pf k (?px k) (world s) = (e, w)"
    then have "e = None"
      using assms(1) unfolding reliable_def by (metis fst_conv)
    then show "error (emit [Load_input k (?px k) e] (s\<lparr>world := w, error := e\<rparr>)) = None"
      by simp
  qed (use assms in simp_all)
  then show ?thesis by (auto simp: stage_input_def Let_def)
qed

lemma reliable_process_image:
  assumes "reliable print_images pf" "error st = None"
  shows "error (process_image pf fp mem print_images i st) = None"
proof -
  have "error (stage_input pf fp mem (decode_record mem st)) = None"
    using assms by (intro reliable_stage_input) simp_all
  then show ?thesis
    using assms(1) unfolding process_image_def Let_def reliable_def
    by (simp add: stage_error_simps)
qed

lemma reliable_completes:
  fixes pf :: "('s, 'f) platform" and fp :: "('f, 'd) fpu"
  assumes "reliable print_images pf"
  shows "error (test_on_buffer pf fp print_images fsize w) = None"
proof -
  let ?st0 = "(if print_images
               then emit [Console_clear_screen] (emit [Printf_testing] (initial fp w))
               else emit [Printf_testing] (initial fp w)) :: ('s, 'f, 'd) state"
  let ?r = "images_loop pf fp (dram pf w) print_images (fsize div 3073) 0 ?st0"
  have "\<exists>k. error ?r = None \<and> 0 \<le> k \<and> (k \<le> fsize div 3073 \<or> k = 0)
          \<and> (k < fsize div 3073 \<longrightarrow> error ?r \<noteq> None) \<and> (error ?r \<noteq> None \<longrightarrow> 0 < k)"
    using assms
    by (intro images_loop_rule [where P = "\<lambda>k s. error s = None"])
      (simp_all add: reliable_process_image)
  then have "error (at_cleanup pf fp print_images fsize w) = None"
    by (auto simp: at_cleanup_def)
  then show ?thesis
    unfolding test_on_buffer_unfold Let_def by simp
qed

subsection \<open>A stub accelerator\<close>

lemma reliable_stub:
  "reliable print_images (stub fsize mem no_error None elapsed scores)"
  "reliable False (stub fsize mem no_error print_error elapsed scores)"
  by (simp_all add: reliable_def stub_def no_error_def)

lemma stub_calls [simp]:
  "dram (stub fsize mem run_error print_error elapsed scores) w = mem"
  "tensil_driver_load_model_input_vector_scalars
     (stub fsize mem run_error print_error elapsed scores) j px w = (None, w)"
  "stopwatch_start (stub fsize mem run_error print_error elapsed scores) w = (None, w)"
  "tensil_driver_run (stub fsize mem run_error print_error elapsed scores) w
     = (run_error w, Suc w)"
  "stopwatch_stop (stub fsize mem run_error print_error elapsed scores) w = w"
  "stopwatch_elapsed_seconds (stub fsize mem run_error print_error elapsed scores) w
     = elapsed (w - 1)"
  "tensil_driver_get_model_output_scalars (stub fsize mem run_error print_error elapsed scores) w
     = (None, scores (w - 1), w)"
  "tensil_driver_print_model_output_vectors
     (stub fsize mem run_error print_error elapsed scores) w = (print_error, w)"
  by (simp_all add: stub_def)

lemma stub_stage_input:
  fixes st :: "(nat, 'f, 'd) state"
  assumes "error st = None"
  shows "world (stage_input (stub fsize mem run_error print_error elapsed scores) fp mem' st)
           = world st"
    "error (stage_input (stub fsize mem run_error print_error elapsed scores) fp mem' st) = None"
proof -
  let ?pf = "stub fsize mem run_error print_error elapsed scores"
  let ?px = "pixel fp (\<lambda>k. mem' (red st + k)) (\<lambda>k. mem' (green st + k)) (\<lambda>k. mem' (blue st + k))
    (channel_mean fp CIFAR_PIXELS_SIZE (\<lambda>k. mem' (red st + k)))
    (channel_mean fp CIFAR_PIXELS_SIZE (\<lambda>k. mem' (green st + k)))
    (channel_mean fp CIFAR_PIXELS_SIZE (\<lambda>k. mem' (blue st + k)))"
  let ?P = "\<lambda>k (s :: (nat, 'f, 'd) state). world s = world st \<and> error s = None"
  have "\<exists>k. ?P k (load_pixels ?pf ?px 0 st) \<and> 0 \<le> k \<and> (k \<le> CIFAR_PIXELS_SIZE \<or> k = 0)
          \<and> (k < CIFAR_PIXELS_SIZE \<longrightarrow> error (load_pixels ?pf ?px 0 st) \<noteq> None)
          \<and> (error (load_pixels ?pf ?px 0 st) \<noteq> None \<longrightarrow> 0 < k)"
    using assms by (intro load_pixels_rule) auto
  then show "world (stage_input ?pf fp mem' st) = world st"
    "error (stage_input ?pf fp mem' st) = None"
    by (auto simp: stage_input_def Let_def)
qed

lemma stub_stages [simp]:
  "world (start_timer (stub fsize mem run_error print_error elapsed scores) st) = world st"
  "error (start_timer (stub fsize mem run_error print_error elapsed scores) st) = None"
  "world (execute (stub fsize mem run_error print_error elapsed scores) st) = Suc (world st)"
  "error (execute (stub fsize mem run_error print_error elapsed scores) st)
     = run_error (world st)"
  "world (stop_timer (stub fsize mem run_error print_error elapsed scores) fp st) = world st"
  "seconds (stop_timer (stub fsize mem run_error print_error elapsed scores) fp st)
     = elapsed (world st - 1)"
  "world (get_output (stub fsize mem run_error print_error elapsed scores) st) = world st"
  "error (get_output (stub fsize mem run_error print_error elapsed scores) st) = None"
  "result (get_output (stub fsize mem run_error print_error elapsed scores) st)
     = scores (world st - 1)"
  "world (report (stub fsize mem run_error print_error elapsed scores) fp mem' i st) = world st"
  by (simp_all add: start_timer_def execute_def stop_timer_def get_output_def report_def Let_def)

text \<open>One image on the stub when its execution succeeds and nothing is reported.\<close>

lemma stub_process_image:
  fixes st :: "(nat, 'f, 'd) state" and fsize mem run_error print_error elapsed scores
  assumes "error st = None" "run_error (world st) = None"
  defines "pf \<equiv> stub fsize mem run_error print_error elapsed scores"
  shows "error (process_image pf fp mem' False i st) = None"
    "world (process_image pf fp mem' False i st) = Suc (world st)"
    "elapsed_times (trace (process_image pf fp mem' False i st))
       = elapsed_times (trace st) @ [elapsed (world st)]"
    "outputs (trace (process_image pf fp mem' False i st))
       = outputs (trace st) @ [map (scores (world st)) [0..<CIFAR_CLASSES_SIZE]]"
proof -
  let ?st1 = "stage_input pf fp mem' (decode_record mem' st)"
  have s1: "world ?st1 = world st" "error ?st1 = None"
    unfolding pf_def using assms(1) by (simp_all add: stub_stage_input)
  have t1: "elapsed_times (trace ?st1) = elapsed_times (trace st)"
    "outputs (trace ?st1) = outputs (trace st)"
    using assms(1) by (simp_all add: stage_input_elapsed)
  show "error (process_image pf fp mem' False i st) = None"
    "world (process_image pf fp mem' False i st) = Suc (world st)"
    "elapsed_times (trace (process_image pf fp mem' False i st))
       = elapsed_times (trace st) @ [elapsed (world st)]"
    "outputs (trace (process_image pf fp mem' False i st))
       = outputs (trace st) @ [map (scores (world st)) [0..<CIFAR_CLASSES_SIZE]]"
    unfolding process_image_def Let_def
    using s1 t1 assms(2) unfolding pf_def by simp_all
qed

lemma stub_run:
  fixes fp :: "('f, 'd) fpu" and fsize mem print_error elapsed scores
  defines "pf \<equiv> stub fsize mem no_error print_error elapsed scores"
  shows "elapsed_times (trace (test_on_buffer pf fp False fsize' 0))
           = map elapsed [0..<fsize' div 3073]"
    "outputs (trace (test_on_buffer pf fp False fsize' 0))
       = map (\<lambda>i. map (scores i) [0..<CIFAR_CLASSES_SIZE]) [0..<fsize' div 3073]"
proof -
  let ?n = "fsize' div 3073"
  let ?st0 = "emit [Printf_testing] (initial fp 0) :: (nat, 'f, 'd) state"
  let ?r = "images_loop pf fp (dram pf 0) False ?n 0 ?st0"
  let ?P = "\<lambda>k (s :: (nat, 'f, 'd) state). world s = k
    \<and> elapsed_times (trace s) = map elapsed [0..<k]
    \<and> outputs (trace s) = map (\<lambda>i. map (scores i) [0..<CIFAR_CLASSES_SIZE]) [0..<k]"
  have "reliable False pf"
    unfolding pf_def by (rule reliable_stub)
  then have ok: "error (test_on_buffer pf fp False fsize' 0) = None"
    by (rule reliable_completes)
  then have ok': "error ?r = None"
    unfolding test_on_buffer_unfold Let_def at_cleanup_def by (simp split: if_splits)
  have "\<exists>k. ?P k ?r \<and> 0 \<le> k \<and> (k \<le> ?n \<or> k = 0) \<and> (k < ?n \<longrightarrow> error ?r \<noteq> None)
          \<and> (error ?r \<noteq> None \<longrightarrow> 0 < k)"
    unfolding pf_def
    by (intro images_loop_rule) (simp_all add: stub_process_image no_error_def)
  then have "?P ?n ?r"
    using ok' by (metis le_zero_eq linorder_not_less order_le_less)
  then show "elapsed_times (trace (test_on_buffer pf fp False fsize' 0))
           = map elapsed [0..<fsize' div 3073]"
    "outputs (trace (test_on_buffer pf fp False fsize' 0))
       = map (\<lambda>i. map (scores i) [0..<CIFAR_CLASSES_SIZE]) [0..<fsize' div 3073]"
    unfolding test_on_buffer_unfold Let_def at_cleanup_def
    using ok' by (simp_all add: cleanup_def)
qed

lemma scenario_argmax:
  "argmax (f_gt exact_fpu) CIFAR_CLASSES_SIZE (scenario_scores 0) = 3"
  "argmax (f_gt exact_fpu) CIFAR_CLASSES_SIZE (scenario_scores (Suc 0)) = 7"
  by (simp_all add: argmax_def argmax_loop.simps CIFAR_CLASSES_SIZE_def scenario_scores_def
      exact_fpu_def)

lemma scenario_misclassified:
  "misclassified exact_fpu scenario_mem
     (map (\<lambda>i. map (scenario_scores i) [0..<CIFAR_CLASSES_SIZE]) [0..<2]) = 0"
proof -
  have "[0..<2] = [0, Suc 0]"
    by (simp add: upt_rec)
  then show ?thesis
    by (simp add: misclassified_def argmax_logged scenario_argmax scenario_mem_def)
qed

text \<open>
  The witness of C7: the scenario, completed, with both images classified correctly.
  The summary holds 2 images, accuracy 1 and throughput 2 / 0.3.
\<close>

theorem summary_statistics_witness:
  "error (test_on_buffer (stub 6146 scenario_mem no_error None scenario_elapsed scenario_scores)
            exact_fpu False 6146 0) = None
   \<and> last (trace (test_on_buffer
              (stub 6146 scenario_mem no_error None scenario_elapsed scenario_scores)
              exact_fpu False 6146 0))
       = Printf_summary 2 1 (2 / (3 / 10))
   \<and> (2 / (3 / 10) :: real) \<noteq> (10 + 5) / 2"
proof -
  let ?pf = "stub 6146 scenario_mem no_error None scenario_elapsed scenario_scores"
  have ok: "error (test_on_buffer ?pf exact_fpu False 6146 0) = None"
    by (intro reliable_completes reliable_stub)
  have n: "(6146::nat) div 3073 = 2" by simp
  have el: "map scenario_elapsed [0..<2] = [1 / 10, 2 / 10]"
    by (simp add: upt_rec scenario_elapsed_def)
  show ?thesis
    using summary_statistics [OF ok] ok scenario_misclassified
    by (simp add: stub_run n el exact_fpu_def)
qed


text \<open>One image on the stub when its execution fails.\<close>

lemma stub_process_image_fails:
  fixes st :: "(nat, 'f, 'd) state" and fsize mem run_error print_error elapsed scores
  assumes "error st = None" "run_error (world st) = Some e"
  defines "pf \<equiv> stub fsize mem run_error print_error elapsed scores"
  shows "error (process_image pf fp mem' print_images i st) = Some e"
    "last (trace (process_image pf fp mem' print_images i st)) = Driver_run (Some e)"
    "trace (process_image pf fp mem' print_images i st) \<noteq> []"
    "outputs (trace (process_image pf fp mem' print_images i st)) = outputs (trace st)"
proof -
  let ?st1 = "stage_input pf fp mem' (decode_record mem' st)"
  have s1: "world ?st1 = world st" "error ?st1 = None"
    unfolding pf_def using assms(1) by (simp_all add: stub_stage_input)
  have t1: "outputs (trace ?st1) = outputs (trace st)"
    using assms(1) by (simp add: stage_input_elapsed)
  have "process_image pf fp mem' print_images i st = execute pf (start_timer pf ?st1)"
    unfolding process_image_def Let_def
    using s1 assms(2) unfolding pf_def by simp
  then show "error (process_image pf fp mem' print_images i st) = Some e"
    "last (trace (process_image pf fp mem' print_images i st)) = Driver_run (Some e)"
    "trace (process_image pf fp mem' print_images i st) \<noteq> []"
    "outputs (trace (process_image pf fp mem' print_images i st)) = outputs (trace st)"
    using s1 t1 assms(2) unfolding pf_def by simp_all
qed

text \<open>
  The witness of C6: the stub of the scenario fails on the execution of the second
  image. The run returns that error and the failing call is its last event; one score
  vector was retrieved, that of the first image, which is classified correctly: the
  misclassification count is 0.
\<close>

theorem first_failure_aborts_witness:
  "trace (test_on_buffer
            (stub 6146 scenario_mem second_fails None scenario_elapsed scenario_scores)
            exact_fpu False 6146 0)
     = butlast (trace (test_on_buffer
            (stub 6146 scenario_mem second_fails None scenario_elapsed scenario_scores)
            exact_fpu False 6146 0))
       @ Driver_run (Some (TENSIL_DRIVER_ERROR 1)) # []
   \<and> failure (Driver_run (Some (TENSIL_DRIVER_ERROR 1)) :: (real, real) event)
       = Some (TENSIL_DRIVER_ERROR 1)
   \<and> error (test_on_buffer
            (stub 6146 scenario_mem second_fails None scenario_elapsed scenario_scores)
            exact_fpu False 6146 0)
       = Some (TENSIL_DRIVER_ERROR 1)
   \<and> length (outputs (trace (test_on_buffer
            (stub 6146 scenario_mem second_fails None scenario_elapsed scenario_scores)
            exact_fpu False 6146 0))) = 1
   \<and> misclass_count (test_on_buffer
            (stub 6146 scenario_mem second_fails None scenario_elapsed scenario_scores)
            exact_fpu False 6146 0) = 0"
proof -
  let ?pf = "stub 6146 scenario_mem second_fails None scenario_elapsed scenario_scores"
  let ?st0 = "emit [Printf_testing] (initial exact_fpu 0) :: (nat, real, real) state"
  let ?st1 = "process_image ?pf exact_fpu scenario_mem False 0 ?st0"
  let ?st2 = "process_image ?pf exact_fpu scenario_mem False 1 ?st1"
  let ?r = "test_on_buffer ?pf exact_fpu False 6146 0"
  let ?out = "map (scenario_scores 0) [0..<CIFAR_CLASSES_SIZE]"
  have first: "error ?st1 = None" "world ?st1 = 1" "outputs (trace ?st1) = [?out]"
    by (simp_all add: stub_process_image second_fails_def)
  have second: "error ?st2 = Some (TENSIL_DRIVER_ERROR 1)"
    "last (trace ?st2) = Driver_run (Some (TENSIL_DRIVER_ERROR 1))" "trace ?st2 \<noteq> []"
    "outputs (trace ?st2) = outputs (trace ?st1)"
    using first by (simp_all add: stub_process_image_fails second_fails_def)
  have "images_loop ?pf exact_fpu scenario_mem False 2 0 ?st0 = ?st2"
    using first(1) second(1)
    by (subst images_loop.simps, simp add: Let_def, subst images_loop.simps, simp add: Let_def)
  then have r: "?r = ?st2"
    unfolding test_on_buffer_unfold Let_def at_cleanup_def
    using second(1) by (simp add: cleanup_def emit_def)
  have split: "trace ?r = butlast (trace ?r) @ Driver_run (Some (TENSIL_DRIVER_ERROR 1)) # []"
    unfolding r using second(2,3) by (metis append_butlast_last_id)
  have "failure (Driver_run (Some (TENSIL_DRIVER_ERROR 1)) :: (real, real) event)
          = Some (TENSIL_DRIVER_ERROR 1)"
    by simp
  note main = first_failure_aborts [OF split this]
  have "outputs (trace ?r) = outputs (butlast (trace ?r))"
    by (subst split) simp
  then have outs: "outputs (butlast (trace ?r)) = [?out]" "outputs (trace ?r) = [?out]"
    using first(3) second(4) unfolding r by simp_all
  have "misclassified exact_fpu scenario_mem [?out] = 0"
    by (simp add: misclassified_def argmax_logged scenario_argmax scenario_mem_def)
  then show ?thesis
    using main split outs by simp
qed

text \<open>The witness of C1: the scenario, completed; all 2048 inputs are those expected.\<close>

theorem inputs_are_normalized_witness:
  "error (test_on_buffer (stub 6146 scenario_mem no_error None scenario_elapsed scenario_scores)
            exact_fpu False 6146 0) = None
   \<and> staged_inputs (trace (test_on_buffer
        (stub 6146 scenario_mem no_error None scenario_elapsed scenario_scores)
        exact_fpu False 6146 0))
       = expected_inputs exact_fpu scenario_mem 2"
proof -
  let ?pf = "stub 6146 scenario_mem no_error None scenario_elapsed scenario_scores"
  have ok: "error (test_on_buffer ?pf exact_fpu False 6146 0) = None"
    by (intro reliable_completes reliable_stub)
  show ?thesis
    using inputs_are_normalized [of ?pf exact_fpu False 6146 0] ok by simp
qed

text \<open>
  The witness of C3: a file of two records and four more bytes gives two records and
  leaves the four bytes; a file of four bytes gives none and no error.
\<close>

theorem record_count_witness:
  "error (test_on_buffer (stub 6150 scenario_mem no_error None scenario_elapsed scenario_scores)
            exact_fpu False 6150 0) = None
   \<and> length (outputs (trace (test_on_buffer
        (stub 6150 scenario_mem no_error None scenario_elapsed scenario_scores)
        exact_fpu False 6150 0))) = 2
   \<and> ptr (test_on_buffer (stub 6150 scenario_mem no_error None scenario_elapsed scenario_scores)
            exact_fpu False 6150 0) = 6146
   \<and> (4::nat) < 3073
   \<and> error (test_on_buffer (stub 4 scenario_mem no_error None scenario_elapsed scenario_scores)
            exact_fpu False 4 0) = None
   \<and> outputs (trace (test_on_buffer
        (stub 4 scenario_mem no_error None scenario_elapsed scenario_scores)
        exact_fpu False 4 0)) = []"
proof -
  let ?pf = "stub 6150 scenario_mem no_error None scenario_elapsed scenario_scores"
  let ?pf' = "stub 4 scenario_mem no_error None scenario_elapsed scenario_scores"
  have ok: "error (test_on_buffer ?pf exact_fpu False 6150 0) = None"
    by (intro reliable_completes reliable_stub)
  show ?thesis
    using record_count [of ?pf exact_fpu False 6150 0] record_count [of ?pf' exact_fpu False 4 0]
      ok
    by simp
qed

subsection \<open>The reporter\<close>

lemma unreported_simps [simp]:
  "world (unreported st) = world st"
  "error (unreported st) = error st"
  "misclass_count (unreported st) = misclass_count st"
  "total_seconds (unreported st) = total_seconds st"
  "ptr (unreported st) = ptr st"
  "expected_class (unreported st) = expected_class st"
  "red (unreported st) = red st"
  "green (unreported st) = green st"
  "blue (unreported st) = blue st"
  "seconds (unreported st) = seconds st"
  "result (unreported st) = result st"
  "actual_class (unreported st) = actual_class st"
  "trace (unreported st) = filter (\<lambda>ev. \<not> reporting ev) (trace st)"
  by (simp_all add: unreported_def)

lemma unreported_emit:
  "unreported (emit evs st) = emit (filter (\<lambda>ev. \<not> reporting ev) evs) (unreported st)"
  by (simp add: unreported_def emit_def)

lemma unreported_call:
  "unreported (st\<lparr>world := w, error := e\<rparr>) = (unreported st)\<lparr>world := w, error := e\<rparr>"
  by (simp add: unreported_def)

lemma unreported_load_pixels:
  "unreported (load_pixels pf px j st) = load_pixels pf px j (unreported st)"
proof (induction pf px j st rule: load_pixels.induct)
  case (1 pf px j st)
  show ?case
  proof (cases "j < CIFAR_PIXELS_SIZE")
    case False
    then show ?thesis
      by (subst load_pixels.simps, subst (2) load_pixels.simps) simp
  next
    case True
    obtain e w where call:
      "tensil_driver_load_model_input_vector_scalars pf j (px j) (world st) = (e, w)"
      by (cases "tensil_driver_load_model_input_vector_scalars pf j (px j) (world st)")
    let ?st' = "emit [Load_input j (px j) e] (st\<lparr>world := w, error := e\<rparr>)"
    have st': "unreported ?st' = emit [Load_input j (px j) e] ((unreported st)\<lparr>world := w, error := e\<rparr>)"
      by (simp add: unreported_emit unreported_call reporting_def)
    show ?thesis
    proof (cases e)
      case None
      then show ?thesis
        using True call "1.IH" [OF True call [symmetric] refl] st'
        by (subst load_pixels.simps, subst (2) load_pixels.simps) simp
    next
      case (Some a)
      then show ?thesis
        using True call st'
        by (subst load_pixels.simps, subst (2) load_pixels.simps) simp
    qed
  qed
qed

lemma unreported_stages:
  "unreported (decode_record mem st) = decode_record mem (unreported st)"
  "unreported (stage_input pf fp mem st) = stage_input pf fp mem (unreported st)"
  "unreported (start_timer pf st) = start_timer pf (unreported st)"
  "unreported (execute pf st) = execute pf (unreported st)"
  "unreported (stop_timer pf fp st) = stop_timer pf fp (unreported st)"
  "unreported (get_output pf st) = get_output pf (unreported st)"
  "unreported (classify fp st) = classify fp (unreported st)"
proof -
  show "unreported (decode_record mem st) = decode_record mem (unreported st)"
    by (simp add: decode_record_def Let_def unreported_def)
  show "unreported (stage_input pf fp mem st) = stage_input pf fp mem (unreported st)"
    by (simp add: stage_input_def Let_def unreported_load_pixels)
  show "unreported (start_timer pf st) = start_timer pf (unreported st)"
    by (simp add: start_timer_def unreported_emit unreported_call reporting_def
        split: prod.splits)
  show "unreported (execute pf st) = execute pf (unreported st)"
    by (simp add: execute_def unreported_emit unreported_call reporting_def split: prod.splits)
  show "unreported (stop_timer pf fp st) = stop_timer pf fp (unreported st)"
    by (simp add: stop_timer_def Let_def emit_def unreported_def reporting_def)
  show "unreported (get_output pf st) = get_output pf (unreported st)"
    by (simp add: get_output_def emit_def unreported_def reporting_def split: prod.splits)
  show "unreported (classify fp st) = classify fp (unreported st)"
    by (simp add: classify_def Let_def unreported_def)
qed

lemma unreported_report:
  assumes "\<forall>s. tensil_driver_print_model_output_vectors pf s = (None, s)" "error st = None"
  shows "unreported (report pf fp mem i st) = unreported st"
proof -
  have "filter (\<lambda>ev. \<not> reporting ev) (print_image r g b 0 :: ('b, 'c) event list) = []"
    for r g b
    using console_print_image by (rule console_observations(6))
  moreover have "st\<lparr>error := None\<rparr> = st"
    using assms(2) by (metis state.surjective state.update_convs(3))
  ultimately show ?thesis
    using assms(1)
    by (simp add: report_def Let_def emit_def unreported_def reporting_def)
qed

lemma unreported_process_image:
  assumes "\<forall>s. tensil_driver_print_model_output_vectors pf s = (None, s)"
  shows "unreported (process_image pf fp mem True i st)
           = process_image pf fp mem False i (unreported st)"
proof -
  let ?st4 = "get_output pf (stop_timer pf fp (execute pf (start_timer pf
                (stage_input pf fp mem (decode_record mem st)))))"
  have "unreported (report pf fp mem i (classify fp ?st4)) = unreported (classify fp ?st4)"
    if "error ?st4 = None"
    using assms that by (intro unreported_report) simp_all
  then show ?thesis
    unfolding process_image_def Let_def
    by (simp add: unreported_stages [symmetric])
qed

lemma unreported_images_loop:
  assumes "\<forall>s. tensil_driver_print_model_output_vectors pf s = (None, s)"
  shows "unreported (images_loop pf fp mem True n i st)
           = images_loop pf fp mem False n i (unreported st)"
proof (induction "n - i" arbitrary: i st)
  case 0
  then show ?case
    by (subst images_loop.simps, subst (2) images_loop.simps) simp
next
  case (Suc d)
  then have less: "i < n" and d: "d = n - (i + 1)" by simp_all
  let ?st' = "process_image pf fp mem True i st"
  have step: "unreported ?st' = process_image pf fp mem False i (unreported st)"
    using assms by (rule unreported_process_image)
  then have err: "error (process_image pf fp mem False i (unreported st)) = error ?st'"
    by (metis unreported_simps(2))
  show ?case
  proof (cases "error ?st'")
    case None
    then show ?thesis
      using less err step Suc.hyps(1) [OF d, of ?st']
      by (subst images_loop.simps, subst (2) images_loop.simps) (simp add: Let_def)
  next
    case (Some a)
    then show ?thesis
      using less err step
      by (subst images_loop.simps, subst (2) images_loop.simps) (simp add: Let_def)
  qed
qed

text \<open>
  Claim C9, as stated, fails: the reporter calls the driver to print the output
  vectors and the function returns the error of that call. On the stub whose print
  fails, the run with reporting returns the error and the run without it none.
\<close>

theorem reporter_counterexample:
  "error (test_on_buffer
            (stub 3073 scenario_mem no_error (Some (TENSIL_DRIVER_ERROR 2)) scenario_elapsed
               scenario_scores) exact_fpu True 3073 0) = Some (TENSIL_DRIVER_ERROR 2)
   \<and> error (test_on_buffer
            (stub 3073 scenario_mem no_error (Some (TENSIL_DRIVER_ERROR 2)) scenario_elapsed
               scenario_scores) exact_fpu False 3073 0) = None"
proof -
  let ?pf = "stub 3073 scenario_mem no_error (Some (TENSIL_DRIVER_ERROR 2)) scenario_elapsed
               scenario_scores"
  let ?st0 = "emit [Console_clear_screen] (emit [Printf_testing] (initial exact_fpu 0))
                :: (nat, real, real) state"
  let ?st1 = "stage_input ?pf exact_fpu scenario_mem (decode_record scenario_mem ?st0)"
  have s1: "world ?st1 = 0" "error ?st1 = None"
    by (simp_all add: stub_stage_input)
  have "error (process_image ?pf exact_fpu scenario_mem True 0 ?st0)
          = Some (TENSIL_DRIVER_ERROR 2)"
    unfolding process_image_def Let_def
    using s1 by (simp add: stage_error_simps no_error_def)
  then have "error (images_loop ?pf exact_fpu scenario_mem True 1 0 ?st0)
          = Some (TENSIL_DRIVER_ERROR 2)"
    by (subst images_loop.simps) (simp add: Let_def)
  then have "error (test_on_buffer ?pf exact_fpu True 3073 0) = Some (TENSIL_DRIVER_ERROR 2)"
    unfolding test_on_buffer_unfold Let_def at_cleanup_def by simp
  moreover have "error (test_on_buffer ?pf exact_fpu False 3073 0) = None"
    by (intro reliable_completes reliable_stub)
  ultimately show ?thesis by simp
qed

lemma reported_labels_in_range:
  assumes "list_all (\<lambda>l. l < CIFAR_CLASSES_SIZE) (reported_labels mem n)"
  shows "\<forall>k. k < n \<longrightarrow> k mod 100 = 0 \<longrightarrow> unat (mem (3073 * k)) < CIFAR_CLASSES_SIZE"
  using assms by (simp add: reported_labels_def list_all_iff)

text \<open>
  Claim C9, amended. When the diagnostic print of the output vectors succeeds and leaves
  the world as it is, and the label of every record on which the reporter prints the
  class names is below 10, the run with reporting reads the table of class names within
  its bounds, and the run without reporting is the run with reporting less the events
  of the reporter: the same error, misclassification count, cumulative time and final
  world, and the same calls of the driver and the stopwatch with the same results and
  the same summary line, in the same order. Where such a label is 10 or more the
  reporter reads past the end of the table, which the run without reporting never
  does, and nothing is stated of the two runs.
\<close>

theorem reporter_is_observational:
  fixes pf :: "('s, 'f) platform" and fp :: "('f, 'd) fpu"
  assumes "\<forall>s. tensil_driver_print_model_output_vectors pf s = (None, s)"
    and "list_all (\<lambda>l. l < CIFAR_CLASSES_SIZE) (reported_labels (dram pf w) (fsize div 3073))"
  shows "filter table_overrun (trace (test_on_buffer pf fp True fsize w)) = []
         \<and> error (test_on_buffer pf fp False fsize w) = error (test_on_buffer pf fp True fsize w)
         \<and> misclass_count (test_on_buffer pf fp False fsize w)
             = misclass_count (test_on_buffer pf fp True fsize w)
         \<and> total_seconds (test_on_buffer pf fp False fsize w)
             = total_seconds (test_on_buffer pf fp True fsize w)
         \<and> world (test_on_buffer pf fp False fsize w) = world (test_on_buffer pf fp True fsize w)
         \<and> trace (test_on_buffer pf fp False fsize w)
             = filter (\<lambda>ev. \<not> reporting ev) (trace (test_on_buffer pf fp True fsize w))"
proof -
  let ?st0 = "emit [Printf_testing] (initial fp w) :: ('s, 'f, 'd) state"
  have "filter table_overrun (trace (at_cleanup pf fp True fsize w)) = []"
    using reported_labels_in_range [OF assms(2)] by (intro at_cleanup_in_table) simp
  then have bounds: "filter table_overrun (trace (test_on_buffer pf fp True fsize w)) = []"
    unfolding test_on_buffer_unfold Let_def by (simp add: cleanup_def)
  have "unreported (emit [Console_clear_screen] ?st0) = ?st0"
    by (simp add: unreported_def emit_def reporting_def)
  then have "unreported (at_cleanup pf fp True fsize w) = at_cleanup pf fp False fsize w"
    unfolding at_cleanup_def
    using unreported_images_loop [OF assms(1), of fp "dram pf w" "fsize div 3073" 0
        "emit [Console_clear_screen] ?st0"]
    by simp
  then have u: "at_cleanup pf fp False fsize w = unreported (at_cleanup pf fp True fsize w)"
    by simp
  have "unreported (test_on_buffer pf fp True fsize w) = test_on_buffer pf fp False fsize w"
    unfolding test_on_buffer_unfold Let_def u
    by (simp add: unreported_emit cleanup_def reporting_def)
  then have "error (test_on_buffer pf fp False fsize w) = error (test_on_buffer pf fp True fsize w)
         \<and> misclass_count (test_on_buffer pf fp False fsize w)
             = misclass_count (test_on_buffer pf fp True fsize w)
         \<and> total_seconds (test_on_buffer pf fp False fsize w)
             = total_seconds (test_on_buffer pf fp True fsize w)
         \<and> world (test_on_buffer pf fp False fsize w) = world (test_on_buffer pf fp True fsize w)
         \<and> trace (test_on_buffer pf fp False fsize w)
             = filter (\<lambda>ev. \<not> reporting ev) (trace (test_on_buffer pf fp True fsize w))"
    by (metis unreported_simps(1,2,3,4,13))
  then show ?thesis
    using bounds by simp
qed

text \<open>
  The witness of C9 amended: the scenario on the stub, whose print succeeds. The
  reporter prints the class names on the first record, whose label is 3.
\<close>

theorem reporter_is_observational_witness:
  "(\<forall>s. tensil_driver_print_model_output_vectors
           (stub 6146 scenario_mem no_error None scenario_elapsed scenario_scores) s = (None, s))
   \<and> reported_labels
        (dram (stub 6146 scenario_mem no_error None scenario_elapsed scenario_scores) 0)
        (6146 div 3073) = [3]
   \<and> list_all (\<lambda>l. l < CIFAR_CLASSES_SIZE)
        (reported_labels
           (dram (stub 6146 scenario_mem no_error None scenario_elapsed scenario_scores) 0)
           (6146 div 3073))
   \<and> filter table_overrun
        (trace (test_on_buffer
           (stub 6146 scenario_mem no_error None scenario_elapsed scenario_scores)
           exact_fpu True 6146 0)) = []
   \<and> error (test_on_buffer (stub 6146 scenario_mem no_error None scenario_elapsed scenario_scores)
              exact_fpu False 6146 0)
       = error (test_on_buffer (stub 6146 scenario_mem no_error None scenario_elapsed scenario_scores)
              exact_fpu True 6146 0)
   \<and> trace (test_on_buffer (stub 6146 scenario_mem no_error None scenario_elapsed scenario_scores)
              exact_fpu False 6146 0)
       = filter (\<lambda>ev. \<not> reporting ev)
           (trace (test_on_buffer
              (stub 6146 scenario_mem no_error None scenario_elapsed scenario_scores)
              exact_fpu True 6146 0))"
proof -
  let ?pf = "stub 6146 scenario_mem no_error None scenario_elapsed scenario_scores"
  have benign: "\<forall>s. tensil_driver_print_model_output_vectors ?pf s = (None, s)"
    by simp
  have "[0..<2] = [0, Suc 0]"
    by (simp add: upt_rec)
  then have labels: "reported_labels (dram ?pf 0) (6146 div 3073) = [3]"
    by (simp add: reported_labels_def scenario_mem_def)
  then have bounded: "list_all (\<lambda>l. l < CIFAR_CLASSES_SIZE)
      (reported_labels (dram ?pf 0) (6146 div 3073))"
    by (simp add: CIFAR_CLASSES_SIZE_def)
  show ?thesis
    using reporter_is_observational [OF benign bounded, of exact_fpu] benign labels bounded
    by simp
qed

subsection \<open>The label\<close>

lemma report_keeps_classes [simp]:
  "expected_class (report pf fp mem i st) = expected_class st"
  "actual_class (report pf fp mem i st) = actual_class st"
  by (simp_all add: report_def Let_def split: prod.splits)

lemma report_classes:
  assumes "i mod 100 = 0" "error (report pf fp mem i st) = None"
  shows "Printf_classes (cifar_class (expected_class st)) (cifar_class (actual_class st))
           \<in> set (trace (report pf fp mem i st))"
  using assms by (auto simp: report_def Let_def split: prod.splits if_splits)

text \<open>
  Claim C10. The label byte is used as it is read. When it is 10 or more and every call
  of the iteration succeeds, the image counts as misclassified (the predicted class is
  below 10), no error is raised, and with live reporting on an image whose index is a
  multiple of 100 the line with the class names is written with the name read at the
  label, past the end of the table of ten names (\<open>None\<close>), next to the name of the
  predicted class.
\<close>

theorem label_not_validated:
  assumes "CIFAR_CLASSES_SIZE \<le> unat (mem (ptr st))"
    and "error (process_image pf fp mem print_images i st) = None"
  shows "expected_class (process_image pf fp mem print_images i st) = unat (mem (ptr st))
         \<and> misclass_count (process_image pf fp mem print_images i st) = misclass_count st + 1
         \<and> cifar_class (expected_class (process_image pf fp mem print_images i st)) = None
         \<and> cifar_class (actual_class (process_image pf fp mem print_images i st)) \<noteq> None
         \<and> (print_images \<and> i mod 100 = 0 \<longrightarrow>
              Printf_classes None
                (cifar_class (actual_class (process_image pf fp mem print_images i st)))
                \<in> set (trace (process_image pf fp mem print_images i st)))"
proof -
  let ?st4 = "get_output pf (stop_timer pf fp (execute pf (start_timer pf
                (stage_input pf fp mem (decode_record mem st)))))"
  let ?r = "process_image pf fp mem print_images i st"
  define st5 where "st5 = classify fp ?st4"
  have r: "?r = (if print_images then report pf fp mem i st5 else st5)"
    using assms(2) unfolding process_image_def Let_def st5_def by (simp split: if_splits)
  have ec: "expected_class st5 = unat (mem (ptr st))"
    by (simp add: st5_def)
  have ac: "actual_class st5 < CIFAR_CLASSES_SIZE"
    by (simp add: st5_def argmax_in_range)
  then have mc: "misclass_count st5 = misclass_count st + 1"
    using assms(1) by (simp add: st5_def)
  have none: "cifar_class (unat (mem (ptr st))) = None"
    using assms(1) by (simp add: cifar_class_def cifar_classes_def CIFAR_CLASSES_SIZE_def)
  have some: "cifar_class (actual_class st5) \<noteq> None"
    using ac by (simp add: cifar_class_def cifar_classes_def CIFAR_CLASSES_SIZE_def)
  have "Printf_classes None (cifar_class (actual_class st5))
          \<in> set (trace (report pf fp mem i st5))"
    if "print_images" "i mod 100 = 0"
    using report_classes [of i pf fp mem st5] that assms(2) r ec none by simp
  then show ?thesis
    unfolding r using ec mc none some by simp
qed

text \<open>
  The witness of C10: the first record of a buffer whose label byte is 200, with live
  reporting, on the stub.
\<close>

theorem label_not_validated_witness:
  "CIFAR_CLASSES_SIZE \<le> unat (unlabelled_mem (ptr (initial exact_fpu 0 :: (nat, real, real) state)))
   \<and> error (process_image (stub 3073 unlabelled_mem no_error None scenario_elapsed scenario_scores)
              exact_fpu unlabelled_mem True 0 (initial exact_fpu 0)) = None
   \<and> misclass_count
        (process_image (stub 3073 unlabelled_mem no_error None scenario_elapsed scenario_scores)
           exact_fpu unlabelled_mem True 0 (initial exact_fpu 0)) = 1
   \<and> Printf_classes None
        (cifar_class (actual_class
           (process_image (stub 3073 unlabelled_mem no_error None scenario_elapsed scenario_scores)
              exact_fpu unlabelled_mem True 0 (initial exact_fpu 0))))
       \<in> set (trace
           (process_image (stub 3073 unlabelled_mem no_error None scenario_elapsed scenario_scores)
              exact_fpu unlabelled_mem True 0 (initial exact_fpu 0)))"
proof -
  let ?pf = "stub 3073 unlabelled_mem no_error None scenario_elapsed scenario_scores"
  let ?st = "initial exact_fpu 0 :: (nat, real, real) state"
  have label: "CIFAR_CLASSES_SIZE \<le> unat (unlabelled_mem (ptr ?st))"
    by (simp add: unlabelled_mem_def CIFAR_CLASSES_SIZE_def)
  have ok: "error (process_image ?pf exact_fpu unlabelled_mem True 0 ?st) = None"
    by (intro reliable_process_image reliable_stub) simp
  show ?thesis
    using label_not_validated [OF label ok] label ok by simp
qed

end
